theory Spec2Isabelle
  imports Main "HOL-Library.AList"
begin

section \<open>JavaScript values\<close>

text \<open>
  \<^verbatim>\<open>defineResource.js\<close> is dynamically typed: the definition handed to
  \<^verbatim>\<open>DS.defineResource\<close> may be a string, an object or anything else, and the
  checks of the function test the type at run time. Values are therefore a datatype.
  An object is the list of its own enumerable properties in enumeration order, an array
  carries its elements and its extra own properties (the code stores \<^verbatim>\<open>deps\<close>
  on an array), and a function carries its own properties as well. Numbers are the
  integers; strings are ASCII. Objects are values here: two references to one object are
  two equal values, and every function that mutates an object returns the new one.
  The members that every object inherits from \<^verbatim>\<open>Object.prototype\<close> are not part of
  the model.
\<close>

datatype fn =
    User string                \<comment> \<open>a function supplied by the caller, by its source text\<close>
  | GetEndpointFn              \<comment> \<open>the function of lines 150-178\<close>
  | OnExpireFn string          \<comment> \<open>the expiry handler of lines 193-198 of the named resource\<close>
  | ClassFn string             \<comment> \<open>the empty constructor declared by \<^verbatim>\<open>eval\<close>, line 208\<close>
  | DSComputeFn string         \<comment> \<open>the method of lines 245-247\<close>
  | BindProxyFn string string  \<comment> \<open>the forwarding function of lines 266-270: resource, verb\<close>
  | ProxyFn string string      \<comment> \<open>the forwarding function of lines 272-276: resource, verb\<close>

datatype jsval =
    JUndefined
  | JNull
  | JBool bool
  | JNum int
  | JStr string
  | JObj "(string \<times> jsval) list"
  | JArr "jsval list" "(string \<times> jsval) list"
  | JFun fn "(string \<times> jsval) list"

datatype error =
    IllegalArgumentError string
  | RuntimeError string
  | TypeError
  | SyntaxError

datatype log_entry = LogError error | LogWarn string

fun truthy :: "jsval \<Rightarrow> bool" where
  "truthy JUndefined = False"
| "truthy JNull = False"
| "truthy (JBool b) = b"
| "truthy (JNum n) = (n \<noteq> 0)"
| "truthy (JStr s) = (s \<noteq> [])"
| "truthy _ = True"

text \<open>\<^verbatim>\<open>a || b\<close>\<close>

definition oror :: "jsval \<Rightarrow> jsval \<Rightarrow> jsval" where
  "oror a b = (if truthy a then a else b)"

fun nullish :: "jsval \<Rightarrow> bool" where
  "nullish JUndefined = True"
| "nullish JNull = True"
| "nullish _ = False"

text \<open>
  The type tests of \<^verbatim>\<open>DS.utils\<close> are those of angular:
  \<^verbatim>\<open>isObject(v)\<close> is \<^verbatim>\<open>v != null && typeof v === 'object'\<close>, which holds of arrays
  and not of functions.
\<close>

fun isString :: "jsval \<Rightarrow> bool" where
  "isString (JStr _) = True"
| "isString _ = False"

fun isNumber :: "jsval \<Rightarrow> bool" where
  "isNumber (JNum _) = True"
| "isNumber _ = False"

fun isObject :: "jsval \<Rightarrow> bool" where
  "isObject (JObj _) = True"
| "isObject (JArr _ _) = True"
| "isObject _ = False"

fun isArray :: "jsval \<Rightarrow> bool" where
  "isArray (JArr _ _) = True"
| "isArray _ = False"

fun isFunction :: "jsval \<Rightarrow> bool" where
  "isFunction (JFun _ _) = True"
| "isFunction _ = False"

subsection \<open>Strings\<close>

definition digit :: "nat \<Rightarrow> char" where
  "digit n = ''0123456789'' ! n"

fun show_nat :: "nat \<Rightarrow> string" where
  "show_nat n = (if n < 10 then [digit n] else show_nat (n div 10) @ [digit (n mod 10)])"

declare show_nat.simps [simp del]

definition show_int :: "int \<Rightarrow> string" where
  "show_int i = (if i < 0 then CHR ''-'' # show_nat (nat (- i)) else show_nat (nat i))"

text \<open>The class \<^verbatim>\<open>\s\<close> of a regular expression, and what \<^verbatim>\<open>trim\<close> removes.\<close>

definition is_space :: "char \<Rightarrow> bool" where
  "is_space c = (c \<in> set [CHR '' '', CHR 0x09, CHR 0x0A, CHR 0x0B, CHR 0x0C, CHR 0x0D])"

text \<open>\<^verbatim>\<open>s.replace(/\s/gi, '')\<close>\<close>

definition strip_spaces :: "string \<Rightarrow> string" where
  "strip_spaces s = filter (\<lambda>c. \<not> is_space c) s"

text \<open>\<^verbatim>\<open>s.trim()\<close>\<close>

definition trim :: "string \<Rightarrow> string" where
  "trim s = rev (dropWhile is_space (rev (dropWhile is_space s)))"

text \<open>\<^verbatim>\<open>s.split(',')\<close>: never empty, \<^verbatim>\<open>''.split(',')\<close> is \<^verbatim>\<open>['']\<close>.\<close>

fun split_comma :: "string \<Rightarrow> string list" where
  "split_comma [] = [[]]"
| "split_comma (c # cs) =
     (if c = CHR '','' then [] # split_comma cs
      else (case split_comma cs of [] \<Rightarrow> [[c]] | w # ws \<Rightarrow> (c # w) # ws))"

fun join_comma :: "string list \<Rightarrow> string" where
  "join_comma [] = []"
| "join_comma [s] = s"
| "join_comma (s # ss) = s @ CHR '','' # join_comma ss"

text \<open>The source text that \<^verbatim>\<open>toString\<close> gives for a function.\<close>

fun fn_source :: "fn \<Rightarrow> string" where
  "fn_source (User src) = src"
| "fn_source GetEndpointFn = ''function (attrs, options) { }''"
| "fn_source (OnExpireFn r) = ''function (id) { }''"
| "fn_source (ClassFn c) = ''function '' @ c @ ''() {}''"
| "fn_source (DSComputeFn r) = ''function () { }''"
| "fn_source (BindProxyFn r m) = ''function () { }''"
| "fn_source (ProxyFn r m) = ''function () { }''"

text \<open>
  \<^verbatim>\<open>String(v)\<close>, which is also the conversion of a value to a property key. An array
  joins its elements with commas, an absent element being the empty string.
\<close>

fun to_str :: "jsval \<Rightarrow> string" where
  "to_str JUndefined = ''undefined''"
| "to_str JNull = ''null''"
| "to_str (JBool b) = (if b then ''true'' else ''false'')"
| "to_str (JNum n) = show_int n"
| "to_str (JStr s) = s"
| "to_str (JObj ps) = ''[object Object]''"
| "to_str (JArr xs ps) = join_comma (map (\<lambda>x. if nullish x then [] else to_str x) xs)"
| "to_str (JFun f ps) = fn_source f"

subsection \<open>Properties\<close>

text \<open>The elements of an array, or the characters of a string, under their index keys.\<close>

definition indexed :: "jsval list \<Rightarrow> (string \<times> jsval) list" where
  "indexed xs = zip (map show_nat [0 ..< length xs]) xs"

text \<open>
  The own enumerable properties, in the order of \<^verbatim>\<open>for (key in v)\<close>. A key occurs
  once in an object: of two entries of a list with the same key the first one counts,
  and \<open>clearjunk\<close> drops the other.
\<close>

fun ownProps :: "jsval \<Rightarrow> (string \<times> jsval) list" where
  "ownProps (JObj ps) = AList.clearjunk ps"
| "ownProps (JArr xs ps) =
     AList.clearjunk (indexed xs @ filter (\<lambda>p. fst p \<noteq> ''length'') ps)"
| "ownProps (JStr s) = indexed (map (\<lambda>c. JStr [c]) s)"
| "ownProps (JFun f ps) = AList.clearjunk ps"
| "ownProps _ = []"

text \<open>
  \<^verbatim>\<open>v[k]\<close> for a value that is not null or undefined: an own property, the length
  and the elements of an array or a string, and undefined otherwise.
\<close>

fun getprop :: "jsval \<Rightarrow> string \<Rightarrow> jsval" where
  "getprop (JArr xs ps) k =
     (if k = ''length'' then JNum (int (length xs))
      else (case map_of (ownProps (JArr xs ps)) k of Some v \<Rightarrow> v | None \<Rightarrow> JUndefined))"
| "getprop (JStr s) k =
     (if k = ''length'' then JNum (int (length s))
      else (case map_of (ownProps (JStr s)) k of Some v \<Rightarrow> v | None \<Rightarrow> JUndefined))"
| "getprop v k = (case map_of (ownProps v) k of Some x \<Rightarrow> x | None \<Rightarrow> JUndefined)"

text \<open>\<^verbatim>\<open>v[k]\<close> in general: reading a property of null or undefined throws.\<close>

definition readprop :: "jsval \<Rightarrow> string \<Rightarrow> error + jsval" where
  "readprop v k = (if nullish v then Inl TypeError else Inr (getprop v k))"

text \<open>\<^verbatim>\<open>k in v\<close> for an object \<^verbatim>\<open>v\<close>.\<close>

fun hasprop :: "jsval \<Rightarrow> string \<Rightarrow> bool" where
  "hasprop (JArr xs ps) k = (k = ''length'' \<or> k \<in> fst ` set (ownProps (JArr xs ps)))"
| "hasprop v k = (k \<in> fst ` set (ownProps v))"

text \<open>\<^verbatim>\<open>k in v\<close> in general: the right operand must be an object or a function.\<close>

definition js_in :: "string \<Rightarrow> jsval \<Rightarrow> error + bool" where
  "js_in k v = (if isObject v \<or> isFunction v then Inr (hasprop v k) else Inl TypeError)"

text \<open>
  \<^verbatim>\<open>v[k] = x\<close>: an existing key keeps its place, a new key goes last. The file is not
  in strict mode, so the assignment to a property of a primitive is dropped silently.
  An array is assigned at an index it has or at a key that is not an index, never beyond
  its length.
\<close>

fun setprop :: "jsval \<Rightarrow> string \<Rightarrow> jsval \<Rightarrow> jsval" where
  "setprop (JObj ps) k x = JObj (AList.update k x ps)"
| "setprop (JArr xs ps) k x =
     (case find (\<lambda>i. show_nat i = k) [0 ..< length xs] of
        Some i \<Rightarrow> JArr (xs[i := x]) ps
      | None \<Rightarrow> JArr xs (AList.update k x ps))"
| "setprop (JFun f ps) k x = JFun f (AList.update k x ps)"
| "setprop v k x = v"

text \<open>\<^verbatim>\<open>delete v[k]\<close>\<close>

fun delprop :: "jsval \<Rightarrow> string \<Rightarrow> jsval" where
  "delprop (JObj ps) k = JObj (AList.delete k ps)"
| "delprop (JArr xs ps) k = JArr xs (AList.delete k ps)"
| "delprop (JFun f ps) k = JFun f (AList.delete k ps)"
| "delprop v k = v"

section \<open>The data store\<close>

text \<open>
  \<^verbatim>\<open>DS\<close> is the receiver of \<^verbatim>\<open>defineResource\<close>. Of its members the function uses
  \<^verbatim>\<open>definitions\<close>, \<^verbatim>\<open>store\<close>, \<^verbatim>\<open>defaults\<close>, \<^verbatim>\<open>$log\<close>, \<^verbatim>\<open>cacheFactory\<close>,
  \<^verbatim>\<open>utils\<close> and, inside the functions it installs, \<^verbatim>\<open>get\<close>, \<^verbatim>\<open>eject\<close> and the
  verbs of \<^verbatim>\<open>methodsToProxy\<close>.
\<close>

text \<open>The configuration object of lines 188-204, together with the entries of the cache.\<close>

record cache =
  maxAge :: jsval
  recycleFreq :: jsval
  cacheFlushInterval :: jsval
  deleteOnExpire :: jsval
  onExpire :: jsval
  capacity :: "nat option"    \<comment> \<open>\<^verbatim>\<open>Number.MAX_VALUE\<close> is \<open>None\<close>: no bound\<close>
  storageMode :: string
  storageImpl :: jsval
  disabled :: bool
  storagePrefix :: string
  entries :: "(string \<times> jsval) list"

text \<open>The object of lines 251-261. \<open>index\<close> refers to the cache by its id.\<close>

record resource_store =
  collection :: "jsval list"
  completedQueries :: "(string \<times> jsval) list"
  pendingQueries :: "(string \<times> jsval) list"
  index :: string
  modified :: "(string \<times> jsval) list"
  saved :: "(string \<times> jsval) list"
  previousAttributes :: "(string \<times> jsval) list"
  observers :: "(string \<times> jsval) list"
  collectionModified :: nat

text \<open>
  \<open>caches\<close> is the collection of caches that \<^verbatim>\<open>DS.cacheFactory\<close> keeps, \<open>log\<close> is
  what was written to \<^verbatim>\<open>DS.$log\<close>, and \<open>calls\<close> lists the calls made to functions
  that the caller supplied, which the model does not run.
\<close>

record ds =
  definitions :: "string \<rightharpoonup> jsval"
  store :: "string \<rightharpoonup> resource_store"
  caches :: "string \<rightharpoonup> cache"
  defaults :: "(string \<times> jsval) list"
  log :: "log_entry list"
  calls :: "(jsval \<times> jsval list) list"

text \<open>
  Two members of \<^verbatim>\<open>DS.utils\<close> come from the library mout and are parameters of the
  model: \<^verbatim>\<open>pascalCase\<close> and \<^verbatim>\<open>makePath\<close>.
\<close>

record helpers =
  pascalCase :: "string \<Rightarrow> string"
  makePath :: "jsval list \<Rightarrow> jsval"

text \<open>
  A resource inherits from \<^verbatim>\<open>DS.defaults\<close> (line 130): a property that it does not
  own is read from the defaults.
\<close>

definition lookup :: "(string \<times> jsval) list \<Rightarrow> jsval \<Rightarrow> string \<Rightarrow> jsval" where
  "lookup proto v k = (if hasprop v k then getprop v k else getprop (JObj proto) k)"

text \<open>
  \<^verbatim>\<open>DS.utils.deepMixIn(target, source)\<close> copies the own properties of the source. At
  both calls the target is a new object, so that no property is merged into an existing
  one.
\<close>

definition deepMixIn :: "jsval \<Rightarrow> jsval \<Rightarrow> jsval" where
  "deepMixIn target source =
     (if truthy source then foldl (\<lambda>t (k, v). setprop t k v) target (ownProps source)
      else target)"

definition errorPrefix :: string where
  "errorPrefix = ''DS.defineResource(definition): ''"

text \<open>Lines 4-13.\<close>

definition Resource :: "(string \<times> jsval) list \<Rightarrow> jsval \<Rightarrow> jsval" where
  "Resource proto options =
     (let this = deepMixIn (JObj []) options in
      if hasprop options ''endpoint''
      then setprop this ''endpoint'' (getprop options ''endpoint'')
      else setprop this ''endpoint'' (lookup proto this ''name''))"

definition methodsToProxy :: "string list" where
  "methodsToProxy =
     [''bindAll'', ''bindOne'', ''changes'', ''create'', ''createInstance'', ''destroy'',
      ''destroyAll'', ''eject'', ''ejectAll'', ''filter'', ''find'', ''findAll'', ''get'',
      ''hasChanges'', ''inject'', ''lastModified'', ''lastSaved'', ''link'', ''linkAll'',
      ''linkInverse'', ''loadRelations'', ''previous'', ''refresh'', ''save'', ''update'',
      ''updateAll'']"

subsection \<open>Validation, lines 110-126\<close>

text \<open>Lines 110-115: a string stands for the definition that has it as name.\<close>

fun normalize :: "jsval \<Rightarrow> jsval" where
  "normalize (JStr s) = JObj [(''name'', JStr (strip_spaces s))]"
| "normalize v = v"

text \<open>Lines 116-126: the error thrown, if any. Nothing has been written at that point.\<close>

definition validate :: "ds \<Rightarrow> jsval \<Rightarrow> error option" where
  "validate s definition =
     (if \<not> isObject definition
      then Some (IllegalArgumentError (errorPrefix @ ''definition: Must be an object!''))
      else if \<not> isString (getprop definition ''name'')
      then Some (IllegalArgumentError (errorPrefix @ ''definition.name: Must be a string!''))
      else if truthy (getprop definition ''idAttribute'')
              \<and> \<not> isString (getprop definition ''idAttribute'')
      then Some (IllegalArgumentError
                  (errorPrefix @ ''definition.idAttribute: Must be a string!''))
      else if truthy (getprop definition ''endpoint'')
              \<and> \<not> isString (getprop definition ''endpoint'')
      then Some (IllegalArgumentError (errorPrefix @ ''definition.endpoint: Must be a string!''))
      else if store s (to_str (getprop definition ''name'')) \<noteq> None
      then Some (RuntimeError
                  (errorPrefix @ to_str (getprop definition ''name'')
                     @ '' is already registered!''))
      else None)"

subsection \<open>The parent of a resource, lines 136-148\<close>

text \<open>Lines 138-140: the relations declared for one related resource.\<close>

fun relationList :: "jsval \<Rightarrow> jsval list" where
  "relationList (JArr xs ps) = xs"
| "relationList relatedModel = [relatedModel]"

text \<open>
  Lines 141-146. \<^verbatim>\<open>relation.parent\<close> throws when the relation is null or undefined.
\<close>

fun forEachRelation :: "string \<Rightarrow> jsval list \<Rightarrow> jsval \<Rightarrow> error + jsval" where
  "forEachRelation modelName [] def = Inr def"
| "forEachRelation modelName (relation # rs) def =
     (case readprop relation ''parent'' of
        Inl e \<Rightarrow> Inl e
      | Inr p \<Rightarrow>
          forEachRelation modelName rs
            (if truthy p
             then setprop (setprop def ''parent'' (JStr modelName))
                    ''parentKey'' (getprop relation ''localKey'')
             else def))"

text \<open>Line 137: \<^verbatim>\<open>forOwn\<close> over \<^verbatim>\<open>def.relations.belongsTo\<close>.\<close>

fun forOwnBelongsTo :: "(string \<times> jsval) list \<Rightarrow> jsval \<Rightarrow> error + jsval" where
  "forOwnBelongsTo [] def = Inr def"
| "forOwnBelongsTo ((modelName, relatedModel) # rest) def =
     (case forEachRelation modelName (relationList relatedModel) def of
        Inl e \<Rightarrow> Inl e
      | Inr def' \<Rightarrow> forOwnBelongsTo rest def')"

definition setupParent :: "(string \<times> jsval) list \<Rightarrow> jsval \<Rightarrow> error + jsval" where
  "setupParent proto def =
     (let relations = lookup proto def ''relations'' in
      if truthy relations \<and> truthy (getprop relations ''belongsTo'')
      then forOwnBelongsTo (ownProps (getprop relations ''belongsTo'')) def
      else Inr def)"

subsection \<open>The filter option and the cache, lines 180-204\<close>

definition renameFilter :: "(string \<times> jsval) list \<Rightarrow> jsval \<Rightarrow> jsval" where
  "renameFilter proto def =
     (if truthy (lookup proto def ''filter'')
      then delprop (setprop def ''defaultFilter'' (lookup proto def ''filter'')) ''filter''
      else def)"

text \<open>\<^verbatim>\<open>def.name\<close>, as a string.\<close>

definition defName :: "(string \<times> jsval) list \<Rightarrow> jsval \<Rightarrow> string" where
  "defName proto def = to_str (lookup proto def ''name'')"

definition cacheConfig :: "(string \<times> jsval) list \<Rightarrow> jsval \<Rightarrow> cache" where
  "cacheConfig proto def =
     \<lparr> maxAge = oror (lookup proto def ''maxAge'') JNull,
       recycleFreq = oror (lookup proto def ''recycleFreq'') (JNum 1000),
       cacheFlushInterval = oror (lookup proto def ''cacheFlushInterval'') JNull,
       deleteOnExpire = oror (lookup proto def ''deleteOnExpire'') (JStr ''none''),
       onExpire = JFun (OnExpireFn (defName proto def)) [],
       capacity = None,
       storageMode = ''memory'',
       storageImpl = JNull,
       disabled = False,
       storagePrefix = ''DS.'' @ defName proto def,
       entries = [] \<rparr>"

text \<open>
  Modelled from the spec: \<^verbatim>\<open>DS.cacheFactory\<close> is the factory of the cache library and
  is not part of the file. Registration "allocates a Cache/Index" for the name: the
  factory keeps the new cache under its id and returns it.
\<close>

definition cacheFactory :: "string \<Rightarrow> cache \<Rightarrow> ds \<Rightarrow> ds" where
  "cacheFactory cacheId c s = s\<lparr>caches := (caches s)(cacheId \<mapsto> c)\<rparr>"

subsection \<open>The wrapper class, lines 206-214\<close>

definition reserved :: "string list" where
  "reserved =
     [''break'', ''case'', ''catch'', ''class'', ''const'', ''continue'', ''debugger'',
      ''default'', ''delete'', ''do'', ''else'', ''enum'', ''export'', ''extends'', ''false'',
      ''finally'', ''for'', ''function'', ''if'', ''import'', ''in'', ''instanceof'', ''new'',
      ''null'', ''return'', ''super'', ''switch'', ''this'', ''throw'', ''true'', ''try'',
      ''typeof'', ''var'', ''void'', ''while'', ''with'']"

definition is_letter :: "char \<Rightarrow> bool" where
  "is_letter c =
     (c \<in> set ''abcdefghijklmnopqrstuvwxyzABCDEFGHIJKLMNOPQRSTUVWXYZ'' \<or> c = CHR ''_''
      \<or> c = CHR ''$'')"

definition is_digit :: "char \<Rightarrow> bool" where
  "is_digit c = (c \<in> set ''0123456789'')"

definition is_identifier :: "string \<Rightarrow> bool" where
  "is_identifier s =
     (case s of
        [] \<Rightarrow> False
      | c # cs \<Rightarrow> is_letter c \<and> list_all (\<lambda>x. is_letter x \<or> is_digit x) cs
                 \<and> s \<notin> set reserved)"

text \<open>
  Lines 208-209: \<^verbatim>\<open>eval('function ' + c + '() {}')\<close> followed by \<^verbatim>\<open>eval(c)\<close>. The
  text is a function declaration when \<open>c\<close> is an identifier that is not a reserved word,
  and a syntax error otherwise (for an empty name, or one that starts with a digit).
  The declared function is taken not to shadow a name that the rest of
  \<^verbatim>\<open>defineResource\<close> uses.
\<close>

definition declareClass :: "string \<Rightarrow> error + jsval" where
  "declareClass c =
     (if is_identifier c then Inr (JFun (ClassFn c) [(''prototype'', JObj [])])
      else Inl SyntaxError)"

text \<open>\<^verbatim>\<open>def[def.class].prototype\<close> and its assignment.\<close>

definition classPrototype :: "jsval \<Rightarrow> string \<Rightarrow> jsval" where
  "classPrototype def c = getprop (getprop def c) ''prototype''"

definition setClassPrototype :: "jsval \<Rightarrow> string \<Rightarrow> jsval \<Rightarrow> jsval" where
  "setClassPrototype def c p = setprop def c (setprop (getprop def c) ''prototype'' p)"

definition setupClass ::
  "helpers \<Rightarrow> (string \<times> jsval) list \<Rightarrow> jsval \<Rightarrow> jsval \<Rightarrow> error + jsval" where
  "setupClass u proto definition def =
     (let c = pascalCase u (to_str (getprop definition ''name''));
          def1 = setprop def ''class'' (JStr c)
      in case declareClass c of
           Inl e \<Rightarrow> Inl e
         | Inr f \<Rightarrow>
             (let def2 = setprop def1 c f in
              Inr (if truthy (lookup proto def2 ''methods'')
                   then setClassPrototype def2 c
                          (deepMixIn (classPrototype def2 c) (lookup proto def2 ''methods''))
                   else def2)))"

subsection \<open>Computed properties, lines 216-248\<close>

text \<open>
  The match of \<^verbatim>\<open>/function.*?\(([\s\S]*?)\)/\<close>. After the word \<^verbatim>\<open>function\<close> the
  expression skips to the first opening parenthesis of the line and captures the text up
  to the next closing parenthesis. \<open>capture_params\<close> works on the text that follows the
  word and gives the captured group.
\<close>

definition is_line_end :: "char \<Rightarrow> bool" where
  "is_line_end c = (c = CHR 0x0A \<or> c = CHR 0x0D)"

fun capture_params :: "string \<Rightarrow> string option" where
  "capture_params [] = None"
| "capture_params (c # cs) =
     (if c = CHR ''(''
      then (if CHR '')'' \<in> set cs then Some (takeWhile (\<lambda>x. x \<noteq> CHR '')'') cs) else None)
      else if is_line_end c then None
      else capture_params cs)"

fun match_function :: "string \<Rightarrow> string option" where
  "match_function [] = None"
| "match_function (c # cs) =
     (if take 8 (c # cs) = ''function''
      then (case capture_params (drop 8 (c # cs)) of
              Some p \<Rightarrow> Some p
            | None \<Rightarrow> match_function cs)
      else match_function cs)"

text \<open>
  Lines 228-234, for an entry \<open>fn\<close> of length 1: the names are read off the text of
  \<^verbatim>\<open>fn[0]\<close> and put in front of the entry. \<^verbatim>\<open>toString\<close> of null or undefined
  throws, and so does \<^verbatim>\<open>match[1]\<close> when there is no match. The result is the new
  \<^verbatim>\<open>def.computed\<close> and the new \<open>fn\<close>; the warning of line 233 is always given, as
  \<^verbatim>\<open>split\<close> never returns an empty array.
\<close>

definition expandDeps :: "jsval \<Rightarrow> string \<Rightarrow> jsval \<Rightarrow> error + jsval \<times> jsval" where
  "expandDeps computed field fn =
     (if nullish (getprop fn ''0'') then Inl TypeError
      else case match_function (to_str (getprop fn ''0'')) of
             None \<Rightarrow> Inl TypeError
           | Some m \<Rightarrow>
               (let deps = map JStr (split_comma m);
                    computed' = setprop computed field
                                  (JArr (deps @ (case fn of JArr xs ps \<Rightarrow> xs | _ \<Rightarrow> [fn])) [])
                in Inr (computed', getprop computed' field)))"

text \<open>
  Line 236, \<^verbatim>\<open>fn.slice(0, fn.length - 1)\<close>: all but the last element of an array,
  all but the last character of a string (which \<^verbatim>\<open>forEach\<close> then walks through
  character by character); any other value has no \<^verbatim>\<open>slice\<close>.
\<close>

fun sliceDeps :: "jsval \<Rightarrow> error + jsval list" where
  "sliceDeps (JArr xs ps) = Inr (butlast xs)"
| "sliceDeps (JStr s) = Inr (map (\<lambda>c. JStr [c]) (butlast s))"
| "sliceDeps v = Inl TypeError"

text \<open>Lines 237-239: \<^verbatim>\<open>val.trim()\<close> exists for strings only.\<close>

fun trimAll :: "jsval list \<Rightarrow> error + jsval list" where
  "trimAll [] = Inr []"
| "trimAll (JStr s # vs) =
     (case trimAll vs of Inl e \<Rightarrow> Inl e | Inr ws \<Rightarrow> Inr (JStr (trim s) # ws))"
| "trimAll (v # vs) = Inl TypeError"

definition conflictWarning :: "string \<Rightarrow> string" where
  "conflictWarning field =
     errorPrefix @ ''Computed property '' @ [CHR 0x22] @ field @ [CHR 0x22]
       @ '' conflicts with previously defined prototype method!''"

definition minifyWarning :: string where
  "minifyWarning =
     errorPrefix @ ''Use the computed property array syntax for compatibility with minified code!''"

text \<open>
  The body of the callback of line 218 for one field: the new \<^verbatim>\<open>def.computed\<close>, or the
  error thrown, and the warnings logged on the way.
\<close>

definition computedField :: "jsval \<Rightarrow> string \<Rightarrow> jsval \<Rightarrow> (error + jsval) \<times> string list" where
  "computedField methods field computed =
     (let fn0 = getprop computed field;
          computed1 = (if isFunction fn0 then setprop computed field (JArr [fn0] [])
                       else computed);
          fn1 = (if isFunction fn0 then getprop computed1 field else fn0)
      in case (if truthy methods then js_in field methods else Inr False) of
           Inl e \<Rightarrow> (Inl e, [])
         | Inr conflict \<Rightarrow>
             (let w1 = (if conflict then [conflictWarning field] else []) in
              case readprop fn1 ''length'' of
                Inl e \<Rightarrow> (Inl e, w1)
              | Inr len \<Rightarrow>
                  (case (if len = JNum 1 then expandDeps computed1 field fn1
                         else Inr (computed1, fn1)) of
                     Inl e \<Rightarrow> (Inl e, w1)
                   | Inr (computed2, fn2) \<Rightarrow>
                       (let w2 = w1 @ (if len = JNum 1 then [minifyWarning] else []) in
                        case sliceDeps fn2 of
                          Inl e \<Rightarrow> (Inl e, w2)
                        | Inr deps \<Rightarrow>
                            (case trimAll deps of
                               Inl e \<Rightarrow> (Inl e, w2)
                             | Inr trimmed \<Rightarrow>
                                 (Inr (setprop computed2 field
                                         (setprop fn2 ''deps''
                                            (JArr (filter truthy trimmed) []))),
                                  w2))))))"

text \<open>Line 218: \<^verbatim>\<open>forOwn\<close> over the fields of \<^verbatim>\<open>def.computed\<close>.\<close>

fun forOwnComputed :: "jsval \<Rightarrow> string list \<Rightarrow> jsval \<Rightarrow> (error + jsval) \<times> string list" where
  "forOwnComputed methods [] computed = (Inr computed, [])"
| "forOwnComputed methods (field # rest) computed =
     (case computedField methods field computed of
        (Inl e, w) \<Rightarrow> (Inl e, w)
      | (Inr computed', w) \<Rightarrow>
          (case forOwnComputed methods rest computed' of (r, w') \<Rightarrow> (r, w @ w')))"

text \<open>
  Lines 217-248. The code changes the object \<^verbatim>\<open>def.computed\<close> in place; the model
  writes the changed object back to the resource.
\<close>

definition setupComputed ::
  "(string \<times> jsval) list \<Rightarrow> string \<Rightarrow> jsval \<Rightarrow> (error + jsval) \<times> string list" where
  "setupComputed proto c def =
     (let computed = lookup proto def ''computed'' in
      if truthy computed
      then (case forOwnComputed (lookup proto def ''methods'')
                   (map fst (ownProps computed)) computed of
              (Inl e, w) \<Rightarrow> (Inl e, w)
            | (Inr computed', w) \<Rightarrow>
                (let def1 = setprop def ''computed'' computed' in
                 (Inr (setClassPrototype def1 c
                         (setprop (classPrototype def1 c) ''DSCompute''
                            (JFun (DSComputeFn (defName proto def1)) []))),
                  w)))
      else (Inr def, []))"

subsection \<open>The store and the forwarding functions, lines 250-278\<close>

definition newStore :: "string \<Rightarrow> resource_store" where
  "newStore cacheId =
     \<lparr> collection = [], completedQueries = [], pendingQueries = [], index = cacheId,
       modified = [], saved = [], previousAttributes = [], observers = [],
       collectionModified = 0 \<rparr>"

definition installProxy :: "string \<Rightarrow> jsval \<Rightarrow> string \<Rightarrow> jsval" where
  "installProxy r def name =
     (if name = ''bindOne'' \<or> name = ''bindAll''
      then setprop def name (JFun (BindProxyFn r name) [])
      else setprop def name (JFun (ProxyFn r name) []))"

definition installProxies :: "string \<Rightarrow> jsval \<Rightarrow> jsval" where
  "installProxies r def = foldl (installProxy r) def methodsToProxy"

subsection \<open>defineResource, lines 105-287\<close>

text \<open>
  The body of the \<^verbatim>\<open>try\<close> block, with the state at the point where it ends or
  throws. \<^verbatim>\<open>def\<close> is the object stored in \<^verbatim>\<open>definitions\<close> at line 131 and changed
  in place from there on; the model stores the first and the finished object, the
  stages between being visible to nobody.
\<close>

definition tryBlock :: "helpers \<Rightarrow> jsval \<Rightarrow> ds \<Rightarrow> (error + jsval) \<times> ds" where
  "tryBlock u definition s =
     (let proto = defaults s;
          name = to_str (getprop definition ''name'');
          def0 = Resource proto definition;
          s1 = s\<lparr>definitions := (definitions s)(name \<mapsto> def0)\<rparr>
      in case setupParent proto def0 of
           Inl e \<Rightarrow> (Inl e, s1)
         | Inr def1 \<Rightarrow>
             (let def2 = setprop def1 ''getEndpoint'' (JFun GetEndpointFn []);
                  def3 = renameFilter proto def2;
                  cacheId = ''DS.'' @ defName proto def3;
                  s2 = cacheFactory cacheId (cacheConfig proto def3) s1
              in case setupClass u proto definition def3 of
                   Inl e \<Rightarrow> (Inl e, s2)
                 | Inr def4 \<Rightarrow>
                     (case setupComputed proto (pascalCase u name) def4 of
                        (Inl e, w) \<Rightarrow> (Inl e, s2\<lparr>log := log s2 @ map LogWarn w\<rparr>)
                      | (Inr def5, w) \<Rightarrow>
                          (let s3 = s2\<lparr>log := log s2 @ map LogWarn w,
                                      store := (store s2)(defName proto def5 \<mapsto> newStore cacheId)\<rparr>;
                               def6 = installProxies (defName proto def5) def5
                           in (Inr def6,
                               s3\<lparr>definitions := (definitions s3)(name \<mapsto> def6)\<rparr>)))))"

text \<open>Lines 281-286: the \<^verbatim>\<open>catch\<close> block, before it throws the error again.\<close>

definition rollback :: "error \<Rightarrow> string \<Rightarrow> ds \<Rightarrow> ds" where
  "rollback err name s =
     s\<lparr>log := log s @ [LogError err],
       definitions := (definitions s)(name := None),
       store := (store s)(name := None)\<rparr>"

text \<open>
  The result is the returned resource or the error thrown, and the state.
\<close>

definition defineResource :: "helpers \<Rightarrow> jsval \<Rightarrow> ds \<Rightarrow> (error + jsval) \<times> ds" where
  "defineResource u definition0 s =
     (let definition = normalize definition0 in
      case validate s definition of
        Some e \<Rightarrow> (Inl e, s)
      | None \<Rightarrow>
          (case tryBlock u definition s of
             (Inr def, s') \<Rightarrow> (Inr def, s')
           | (Inl err, s') \<Rightarrow>
               (Inl err, rollback err (to_str (getprop definition ''name'')) s')))"

section \<open>The functions installed on a resource\<close>

subsection \<open>Reading the store\<close>

text \<open>
  Modelled from the spec: \<^verbatim>\<open>DS.get\<close> is defined in another file. "get(resourceName,
  key) returns the current record or nothing; O(1) via index": the record is looked up
  in the cache that is the index of the resource.
\<close>

definition DSget :: "string \<Rightarrow> jsval \<Rightarrow> ds \<Rightarrow> jsval" where
  "DSget resourceName key s =
     (case store s resourceName of
        None \<Rightarrow> JUndefined
      | Some r \<Rightarrow>
          (case caches s (index r) of
             None \<Rightarrow> JUndefined
           | Some c \<Rightarrow>
               (case map_of (entries c) (to_str key) of
                  None \<Rightarrow> JUndefined
                | Some item \<Rightarrow> item)))"

subsection \<open>getEndpoint, lines 150-178\<close>

text \<open>\<^verbatim>\<open>options.params[parentKey]\<close> and \<^verbatim>\<open>delete options.params[parentKey]\<close>\<close>

definition param :: "jsval \<Rightarrow> string \<Rightarrow> error + jsval" where
  "param options k = readprop (getprop options ''params'') k"

definition deleteParam :: "jsval \<Rightarrow> string \<Rightarrow> jsval" where
  "deleteParam options k = setprop options ''params'' (delprop (getprop options ''params'') k)"

text \<open>
  Where the value of the parent key comes from: the three branches of lines 163-172.
\<close>

datatype source = FromAttrs | FromItem | FromParams

text \<open>
  Lines 159-169 without the calls to the parent: the branch that is taken, if any, with
  the record found by \<^verbatim>\<open>DS.get\<close>. The tests are made in the order of the code, and
  \<^verbatim>\<open>options.params[parentKey]\<close> is only read once the parent is known to be
  registered.
\<close>

definition keySource ::
  "ds \<Rightarrow> jsval \<Rightarrow> jsval \<Rightarrow> jsval \<Rightarrow> error + (source \<times> jsval) option" where
  "keySource s this attrs options =
     (let proto = defaults s;
          parent = lookup proto this ''parent'';
          parentKey = lookup proto this ''parentKey'';
          k = to_str parentKey
      in if truthy parent \<and> truthy parentKey \<and> definitions s (to_str parent) \<noteq> None
         then (case param options k of
                 Inl e \<Rightarrow> Inl e
               | Inr p \<Rightarrow>
                   if p \<noteq> JBool False
                   then (let item = (if isNumber attrs \<or> isString attrs
                                     then DSget (defName proto this) attrs s
                                     else JUndefined)
                         in if isObject attrs \<and> hasprop attrs k
                            then Inr (Some (FromAttrs, item))
                            else (case (if truthy item then js_in k item else Inr False) of
                                    Inl e \<Rightarrow> Inl e
                                  | Inr True \<Rightarrow> Inr (Some (FromItem, item))
                                  | Inr False \<Rightarrow>
                                      if truthy p then Inr (Some (FromParams, item))
                                      else Inr None))
                   else Inr None)
         else Inr None)"

text \<open>Lines 174-177.\<close>

definition finish :: "jsval \<Rightarrow> string \<Rightarrow> jsval \<Rightarrow> jsval \<Rightarrow> error + jsval \<times> jsval" where
  "finish options k endpoint thisEndpoint =
     (case param options k of
        Inl e \<Rightarrow> Inl e
      | Inr p \<Rightarrow>
          Inr (oror endpoint thisEndpoint,
               if p = JBool False then deleteParam options k else options))"

text \<open>
  Lines 165, 168 and 170-171 after the call to the parent, which has returned
  \<open>parentEndpoint\<close> and left the options as \<open>options2\<close>. In the third branch the
  parameter is read after that call.
\<close>

definition compose ::
  "helpers \<Rightarrow> source \<Rightarrow> jsval \<Rightarrow> jsval \<Rightarrow> string \<Rightarrow> jsval \<Rightarrow> jsval \<Rightarrow> jsval
     \<Rightarrow> error + jsval \<times> jsval" where
  "compose u src attrs item k thisEndpoint parentEndpoint options2 =
     (case src of
        FromAttrs \<Rightarrow>
          finish options2 k (makePath u [parentEndpoint, getprop attrs k, thisEndpoint])
            thisEndpoint
      | FromItem \<Rightarrow>
          finish options2 k (makePath u [parentEndpoint, getprop item k, thisEndpoint])
            thisEndpoint
      | FromParams \<Rightarrow>
          (case param options2 k of
             Inl e \<Rightarrow> Inl e
           | Inr p \<Rightarrow>
               finish (deleteParam options2 k) k
                 (makePath u [parentEndpoint, p, thisEndpoint]) thisEndpoint))"

text \<open>Line 155: \<^verbatim>\<open>options.endpoint || this.endpoint\<close>, which throws without options.\<close>

definition thisEndpointOf :: "ds \<Rightarrow> jsval \<Rightarrow> jsval \<Rightarrow> error + jsval" where
  "thisEndpointOf s this options0 =
     (case readprop options0 ''endpoint'' of
        Inl e \<Rightarrow> Inl e
      | Inr optEndpoint \<Rightarrow> Inr (oror optEndpoint (lookup (defaults s) this ''endpoint'')))"

text \<open>Lines 156-158: the options once the defaults are filled in.\<close>

definition prepareOptions :: "jsval \<Rightarrow> jsval" where
  "prepareOptions options0 =
     (let options1 = oror (delprop options0 ''endpoint'') (JObj [])
      in setprop options1 ''params'' (oror (getprop options1 ''params'') (JObj [])))"

text \<open>
  The options with which the parent is called: lines 164 and 167 delete the parameter
  before the call, line 171 after it.
\<close>

definition forParent :: "source \<Rightarrow> jsval \<Rightarrow> string \<Rightarrow> jsval" where
  "forParent src options k = (if src = FromParams then options else deleteParam options k)"

text \<open>
  The function itself. \<open>this\<close> is the resource on which it is called. The result is the
  endpoint together with the options object as the call leaves it, since the callers
  share that object; \<open>Inl\<close> is an error thrown. The recursion follows the chain of
  parents, which the code does not require to end: \<open>n\<close> bounds the number of nested
  calls, and \<open>None\<close> says that the bound was reached.

  \<^verbatim>\<open>definitions[parent].getEndpoint\<close> is the function that line 150 has installed on the
  parent, unless the class name of the parent is \<^verbatim>\<open>getEndpoint\<close>: line 209 then has
  put the empty constructor in its place, which returns undefined. A member that is not
  a function cannot be called. Through \<^verbatim>\<open>defineResource\<close> no other function gets there,
  and the model has the same error for one.
\<close>

fun getEndpoint ::
  "helpers \<Rightarrow> nat \<Rightarrow> ds \<Rightarrow> jsval \<Rightarrow> jsval \<Rightarrow> jsval \<Rightarrow> (error + jsval \<times> jsval) option" where
  "getEndpoint u n s this attrs options0 =
     (case thisEndpointOf s this options0 of
        Inl e \<Rightarrow> Some (Inl e)
      | Inr thisEndpoint \<Rightarrow>
          (let parent = to_str (lookup (defaults s) this ''parent'');
               k = to_str (lookup (defaults s) this ''parentKey'');
               options = prepareOptions options0
           in case keySource s this attrs options of
                Inl e \<Rightarrow> Some (Inl e)
              | Inr None \<Rightarrow> Some (finish options k JUndefined thisEndpoint)
              | Inr (Some (src, item)) \<Rightarrow>
                  (let options1 = forParent src options k
                   in case definitions s parent of
                        None \<Rightarrow> Some (Inl TypeError)
                      | Some parentDef \<Rightarrow>
                          (case lookup (defaults s) parentDef ''getEndpoint'' of
                             JFun f ps \<Rightarrow>
                               (case f of
                                  GetEndpointFn \<Rightarrow>
                                    (case n of
                                       0 \<Rightarrow> None
                                     | Suc m \<Rightarrow>
                                         (case getEndpoint u m s parentDef attrs options1 of
                                            None \<Rightarrow> None
                                          | Some (Inl e) \<Rightarrow> Some (Inl e)
                                          | Some (Inr (parentEndpoint, options2)) \<Rightarrow>
                                              Some (compose u src attrs item k thisEndpoint
                                                      parentEndpoint options2)))
                                | ClassFn c \<Rightarrow>
                                    Some (compose u src attrs item k thisEndpoint JUndefined
                                            options1)
                                | _ \<Rightarrow> Some (Inl TypeError))
                           | _ \<Rightarrow> Some (Inl TypeError)))))"

declare getEndpoint.simps [simp del]

subsection \<open>The expiry handler, lines 193-198\<close>




subsection \<open>The forwarding functions, lines 263-278\<close>




section \<open>An instance of the helpers\<close>

text \<open>
  The two functions in the manner of mout, for ASCII text, used to run the model on
  examples; the statements that hold for every pair of helpers do not depend on them.
  \<^verbatim>\<open>pascalCase\<close> removes what is neither a letter, a digit, a space, a hyphen nor an
  underscore, takes hyphens and underscores as spaces, puts the letter after a space in
  upper case, removes the spaces and puts the first letter in upper case.
  \<^verbatim>\<open>makePath\<close> joins with slashes the arguments that are not null, undefined or empty.
\<close>

definition upper :: "char \<Rightarrow> char" where
  "upper c =
     (case map_of (zip ''abcdefghijklmnopqrstuvwxyz'' ''ABCDEFGHIJKLMNOPQRSTUVWXYZ'') c of
        Some C \<Rightarrow> C
      | None \<Rightarrow> c)"

definition is_word_char :: "char \<Rightarrow> bool" where
  "is_word_char c =
     (c \<in> set ''abcdefghijklmnopqrstuvwxyzABCDEFGHIJKLMNOPQRSTUVWXYZ0123456789 -_'')"

fun upper_after_space :: "string \<Rightarrow> string" where
  "upper_after_space (c # d # cs) =
     (if c = CHR '' '' then c # upper d # upper_after_space cs
      else c # upper_after_space (d # cs))"
| "upper_after_space cs = cs"

definition upper_first :: "string \<Rightarrow> string" where
  "upper_first s = (case s of [] \<Rightarrow> [] | c # cs \<Rightarrow> upper c # cs)"

definition mout_pascalCase :: "string \<Rightarrow> string" where
  "mout_pascalCase s =
     upper_first
       (filter (\<lambda>c. c \<noteq> CHR '' '')
          (upper_after_space
             (map (\<lambda>c. if c = CHR ''-'' \<or> c = CHR ''_'' then CHR '' '' else c)
                (filter is_word_char s))))"

fun join_slash :: "string list \<Rightarrow> string" where
  "join_slash [] = []"
| "join_slash [s] = s"
| "join_slash (s # ss) = s @ CHR ''/'' # join_slash ss"

definition mout_makePath :: "jsval list \<Rightarrow> jsval" where
  "mout_makePath args =
     JStr (join_slash (map to_str (filter (\<lambda>v. \<not> nullish v \<and> v \<noteq> JStr []) args)))"

definition mout :: helpers where
  "mout = \<lparr> pascalCase = mout_pascalCase, makePath = mout_makePath \<rparr>"

text \<open>A store with nothing registered, and the defaults that the claims speak of.\<close>

definition emptyDS :: ds where
  "emptyDS =
     \<lparr> definitions = Map.empty, store = Map.empty, caches = Map.empty,
       defaults = [(''idAttribute'', JStr ''id'')], log = [], calls = [] \<rparr>"

section \<open>Notions used in the statements\<close>

text \<open>
  \<open>frame K v v'\<close>: the objects \<open>v\<close> and \<open>v'\<close> have the same properties outside the
  keys \<open>K\<close>.
\<close>

definition frame :: "string set \<Rightarrow> jsval \<Rightarrow> jsval \<Rightarrow> bool" where
  "frame K v v' =
     (\<exists>ps ps'. v = JObj ps \<and> v' = JObj ps' \<and> (\<forall>k. k \<notin> K \<longrightarrow> map_of ps' k = map_of ps k))"

text \<open>The keys that the registration of a definition writes after line 131.\<close>

definition touched :: "helpers \<Rightarrow> jsval \<Rightarrow> string set" where
  "touched u d =
     {''parent'', ''parentKey'', ''getEndpoint'', ''defaultFilter'', ''filter'', ''class'',
      ''computed'', pascalCase u (to_str (getprop d ''name''))} \<union> set methodsToProxy"

text \<open>The definitions that pass lines 116-123.\<close>

definition shapeOK :: "jsval \<Rightarrow> bool" where
  "shapeOK d =
     (isObject d \<and> isString (getprop d ''name'')
      \<and> (truthy (getprop d ''idAttribute'') \<longrightarrow> isString (getprop d ''idAttribute''))
      \<and> (truthy (getprop d ''endpoint'') \<longrightarrow> isString (getprop d ''endpoint'')))"

text \<open>
  The relations of a \<^verbatim>\<open>belongsTo\<close> object that carry the parent flag, each with the
  name of the related resource, in the order in which lines 137-147 visit them; and what
  lines 143-144 do for one of them.
\<close>

definition flagged :: "(string \<times> jsval) list \<Rightarrow> (string \<times> jsval) list" where
  "flagged belongsTo =
     concat (map (\<lambda>(modelName, relatedModel).
        map (Pair modelName)
          (filter (\<lambda>r. truthy (getprop r ''parent'')) (relationList relatedModel)))
      belongsTo)"

definition applyFlag :: "jsval \<Rightarrow> string \<times> jsval \<Rightarrow> jsval" where
  "applyFlag def f =
     setprop (setprop def ''parent'' (JStr (fst f))) ''parentKey'' (getprop (snd f) ''localKey'')"

text \<open>The function that lines 264-278 store under the name of a verb.\<close>

definition proxyFor :: "string \<Rightarrow> string \<Rightarrow> jsval" where
  "proxyFor r name =
     (if name = ''bindOne'' \<or> name = ''bindAll'' then JFun (BindProxyFn r name) []
      else JFun (ProxyFn r name) [])"





text \<open>The record with primary key \<open>attrs\<close>, when \<open>attrs\<close> is a number or a string.\<close>

definition injected :: "ds \<Rightarrow> jsval \<Rightarrow> jsval \<Rightarrow> jsval" where
  "injected s this attrs =
     (if isNumber attrs \<or> isString attrs then DSget (defName (defaults s) this) attrs s
      else JUndefined)"

text \<open>
  The claim on \<^verbatim>\<open>getEndpoint\<close>, in its words: the value of the parent key is "taken
  from attrs directly if attrs is an object containing the parent key, else from the
  already-injected record with primary key attrs, else from options.params". \<open>k\<close> is
  the parent key and \<open>item\<close> the record that \<^verbatim>\<open>DS.get\<close> finds, if any.
\<close>

definition resolvedFrom :: "jsval \<Rightarrow> jsval \<Rightarrow> jsval \<Rightarrow> string \<Rightarrow> source option" where
  "resolvedFrom attrs item options k =
     (if isObject attrs \<and> hasprop attrs k then Some FromAttrs
      else if isObject item \<and> hasprop item k then Some FromItem
      else if truthy (getprop (getprop options ''params'') k) then Some FromParams
      else None)"

text \<open>The options as line 161 leaves them: an object whose \<^verbatim>\<open>params\<close> is not falsy.\<close>

definition prepared :: "jsval \<Rightarrow> bool" where
  "prepared options = (\<exists>ops. options = JObj ops \<and> truthy (getprop options ''params''))"

section \<open>Examples\<close>

text \<open>
  Definitions given to \<^verbatim>\<open>defineResource\<close>: two with an idAttribute that is not a
  string, one with a computed field that is null, one with relations of which two carry
  the parent flag, one with a computed field declared as a function, and one that
  declares the resource itself as its parent, with a record of that resource and with
  what its registration in the empty store leaves and returns.
\<close>

definition userFalsyId :: jsval where
  "userFalsyId = JObj [(''name'', JStr ''user''), (''idAttribute'', JNum 0)]"

definition userNumericId :: jsval where
  "userNumericId = JObj [(''name'', JStr ''user''), (''idAttribute'', JNum 5)]"

definition userNullComputed :: jsval where
  "userNullComputed =
     JObj [(''name'', JStr ''user''), (''computed'', JObj [(''fullName'', JNull)])]"

definition commentDef :: jsval where
  "commentDef =
     JObj [(''name'', JStr ''comment''),
           (''relations'',
            JObj [(''belongsTo'',
                   JObj [(''post'', JObj [(''parent'', JBool True), (''localKey'', JStr ''postId'')]),
                         (''user'',
                          JArr [JObj [(''localKey'', JStr ''userId'')],
                                JObj [(''parent'', JBool True), (''localKey'', JStr ''ownerId'')]]
                            [])])])]"



definition categoryDef :: jsval where
  "categoryDef =
     JObj [(''name'', JStr ''category''),
           (''relations'',
            JObj [(''belongsTo'',
                   JObj [(''category'',
                          JObj [(''parent'', JBool True), (''localKey'', JStr ''parentId'')])])])]"

definition category1 :: jsval where
  "category1 = JObj [(''id'', JNum 1), (''parentId'', JNum 2)]"

definition categoryDS :: ds where
  "categoryDS = snd (defineResource mout categoryDef emptyDS)"

definition categoryResource :: jsval where
  "categoryResource = projr (fst (defineResource mout categoryDef emptyDS))"




text \<open>
  A state with the resources \<^verbatim>\<open>organization\<close> and \<^verbatim>\<open>user\<close>, the second with the
  first as parent through \<^verbatim>\<open>organizationId\<close>, as a registration leaves them; only the
  members that \<^verbatim>\<open>getEndpoint\<close> reads are written out.
\<close>

definition organizationResource :: jsval where
  "organizationResource =
     JObj [(''name'', JStr ''organization''), (''endpoint'', JStr ''organization''),
           (''getEndpoint'', JFun GetEndpointFn [])]"

definition orgUserResource :: jsval where
  "orgUserResource =
     JObj [(''name'', JStr ''user''), (''endpoint'', JStr ''user''),
           (''parent'', JStr ''organization''), (''parentKey'', JStr ''organizationId''),
           (''getEndpoint'', JFun GetEndpointFn [])]"

definition orgUserDS :: ds where
  "orgUserDS =
     emptyDS\<lparr>definitions :=
       [''organization'' \<mapsto> organizationResource, ''user'' \<mapsto> orgUserResource]\<rparr>"

definition user7 :: jsval where
  "user7 = JObj [(''id'', JNum 7), (''organizationId'', JNum 5)]"

section \<open>Properties\<close>

subsection \<open>Objects\<close>

lemma getprop_JObj:
  "getprop (JObj ps) k = (case map_of ps k of Some x \<Rightarrow> x | None \<Rightarrow> JUndefined)"
  by (simp add: map_of_clearjunk)

lemma hasprop_JObj: "hasprop (JObj ps) k \<longleftrightarrow> map_of ps k \<noteq> None"
  by (simp add: dom_clearjunk map_of_eq_None_iff)

declare getprop.simps [simp del] hasprop.simps [simp del] ownProps.simps [simp del]
declare getprop_JObj [simp] hasprop_JObj [simp]

subsection \<open>Validation\<close>

lemma validate_IllegalArgument:
  assumes "\<not> isObject d \<or> \<not> isString (getprop d ''name'')
     \<or> (truthy (getprop d ''idAttribute'') \<and> \<not> isString (getprop d ''idAttribute''))
     \<or> (truthy (getprop d ''endpoint'') \<and> \<not> isString (getprop d ''endpoint''))"
  shows "\<exists>m. validate s d = Some (IllegalArgumentError m)"
  using assms by (auto simp: validate_def)

text \<open>
  C3, as amended. If the input is neither a string nor an object, or is an object whose
  name is not a string, or whose idAttribute is truthy and not a string, or whose
  endpoint is truthy and not a string, then \<^verbatim>\<open>defineResource\<close> throws an
  IllegalArgumentError and the state is as before. A string is registered as the
  definition whose name is the string without its white space.
\<close>

theorem defineResource_rejects_malformed:
  assumes "(\<not> isString d \<and> \<not> isObject d)
     \<or> (isObject d \<and> (\<not> isString (getprop d ''name'')
          \<or> (truthy (getprop d ''idAttribute'') \<and> \<not> isString (getprop d ''idAttribute''))
          \<or> (truthy (getprop d ''endpoint'') \<and> \<not> isString (getprop d ''endpoint''))))"
  shows "(\<exists>m. defineResource u d s = (Inl (IllegalArgumentError m), s))
     \<and> defineResource u (JStr str) s
         = defineResource u (JObj [(''name'', JStr (filter (\<lambda>c. \<not> is_space c) str))]) s"
proof -
  have n: "normalize d = d" using assms by (cases d) auto
  have "\<exists>m. validate s d = Some (IllegalArgumentError m)"
    using assms by (intro validate_IllegalArgument) auto
  then show ?thesis by (auto simp: defineResource_def n strip_spaces_def)
qed

theorem defineResource_rejects_malformed_witness:
  "(\<not> isString (JNum 5) \<and> \<not> isObject (JNum 5))
   \<and> (\<exists>m. defineResource mout (JNum 5) emptyDS = (Inl (IllegalArgumentError m), emptyDS))
   \<and> defineResource mout (JStr '' us er '') emptyDS
       = defineResource mout (JObj [(''name'', JStr ''user'')]) emptyDS"
  using defineResource_rejects_malformed [of "JNum 5" mout emptyDS "'' us er ''"]
  by (simp add: is_space_def)

text \<open>
  C3 as stated fails. The definition \<^verbatim>\<open>{name: 'user', idAttribute: 0}\<close> gives an
  idAttribute that is not a string, and it is registered: line 120 tests
  \<^verbatim>\<open>definition.idAttribute && ...\<close>, which a falsy value passes. The empty name is a
  string and passes line 118; with the helpers of mout the call then fails at line 208
  with a syntax error, after the cache has been created.
\<close>

theorem defineResource_accepts_falsy_idAttribute:
  "hasprop userFalsyId ''idAttribute''
   \<and> \<not> isString (getprop userFalsyId ''idAttribute'')
   \<and> \<not> isl (fst (defineResource mout userFalsyId emptyDS))
   \<and> store (snd (defineResource mout userFalsyId emptyDS)) ''user'' \<noteq> None
   \<and> fst (defineResource mout (JStr []) emptyDS) = Inl SyntaxError
   \<and> caches (snd (defineResource mout (JStr []) emptyDS)) ''DS.'' \<noteq> None"
  by code_simp

subsection \<open>getEndpoint\<close>

text \<open>
  C10. Whatever the resource, the attributes, the state and the bound on the recursion:
  a call of \<^verbatim>\<open>getEndpoint\<close> whose options are undefined or null throws a TypeError,
  since line 155 reads \<^verbatim>\<open>options.endpoint\<close> before line 157 supplies the default.
\<close>

theorem getEndpoint_without_options:
  "getEndpoint u n s this attrs JUndefined = Some (Inl TypeError)
   \<and> getEndpoint u n s this attrs JNull = Some (Inl TypeError)"
  by (simp add: getEndpoint.simps thisEndpointOf_def readprop_def)

subsection \<open>What each stage of the registration changes\<close>

lemma ownProps_JObj [simp]: "ownProps (JObj ps) = AList.clearjunk ps"
  by (simp add: ownProps.simps)

lemma frame_refl: "frame K (JObj ps) (JObj ps)"
  by (simp add: frame_def)

lemma frame_trans: "frame K a b \<Longrightarrow> frame L b c \<Longrightarrow> frame (K \<union> L) a c"
  by (auto simp: frame_def)

lemma frame_mono: "frame K a b \<Longrightarrow> K \<subseteq> L \<Longrightarrow> frame L a b"
  by (auto simp: frame_def)

lemma frame_setprop: "frame {k} (JObj ps) (setprop (JObj ps) k x)"
  by (simp add: frame_def update_conv')

lemma frame_delprop: "frame {k} (JObj ps) (delprop (JObj ps) k)"
  by (simp add: frame_def delete_conv')

lemma frame_JObj: "frame K a b \<Longrightarrow> \<exists>ps. b = JObj ps"
  by (auto simp: frame_def)

lemma frame_getprop: "frame K a b \<Longrightarrow> k \<notin> K \<Longrightarrow> getprop b k = getprop a k"
  by (auto simp: frame_def getprop_JObj)

lemma frame_hasprop: "frame K a b \<Longrightarrow> k \<notin> K \<Longrightarrow> hasprop b k = hasprop a k"
  by (auto simp: frame_def hasprop_JObj)

lemma frame_lookup: "frame K a b \<Longrightarrow> k \<notin> K \<Longrightarrow> lookup proto b k = lookup proto a k"
  by (simp add: lookup_def frame_getprop frame_hasprop)

lemma getprop_setprop_same: "getprop (setprop (JObj ps) k x) k = x"
  by (simp add: getprop_JObj update_conv')

lemma hasprop_setprop_same: "hasprop (setprop (JObj ps) k x) k"
  by (simp add: hasprop_JObj update_conv')

lemma lookup_setprop_same: "lookup proto (setprop (JObj ps) k x) k = x"
  by (simp add: lookup_def update_conv')

lemma mixin_fold:
  "distinct (map fst l) \<Longrightarrow>
   \<exists>acc'. foldl (\<lambda>t (k, v). setprop t k v) (JObj acc) l = JObj acc'
      \<and> (\<forall>k. map_of acc' k = (case map_of l k of Some v \<Rightarrow> Some v | None \<Rightarrow> map_of acc k))"
proof (induction l arbitrary: acc)
  case Nil
  then show ?case by simp
next
  case (Cons p l)
  obtain k0 v0 where p: "p = (k0, v0)" by (cases p)
  from Cons.prems have d: "distinct (map fst l)" and nk: "k0 \<notin> fst ` set l" by (auto simp: p)
  from Cons.IH [OF d, of "AList.update k0 v0 acc"] obtain acc' where
    a: "foldl (\<lambda>t (k, v). setprop t k v) (JObj (AList.update k0 v0 acc)) l = JObj acc'"
    and b: "\<forall>k. map_of acc' k = (case map_of l k of Some v \<Rightarrow> Some v | None \<Rightarrow> map_of (AList.update k0 v0 acc) k)"
    by blast
  have "map_of l k0 = None" using nk by (simp add: map_of_eq_None_iff)
  then show ?case using a b by (auto simp: p update_conv' split: option.splits)
qed

lemma distinct_ownProps: "isObject d \<Longrightarrow> distinct (map fst (ownProps d))"
  by (cases d) (simp_all add: ownProps.simps)

lemma deepMixIn_object:
  assumes "isObject d"
  shows "\<exists>ps. deepMixIn (JObj []) d = JObj ps \<and> map_of ps = map_of (ownProps d)"
proof -
  have t: "truthy d" using assms by (cases d) auto
  from mixin_fold [OF distinct_ownProps [OF assms], of "[]"] obtain acc' where
    a: "foldl (\<lambda>t (k, v). setprop t k v) (JObj []) (ownProps d) = JObj acc'"
    and b: "\<forall>k. map_of acc' k = (case map_of (ownProps d) k of Some v \<Rightarrow> Some v | None \<Rightarrow> map_of [] k)"
    by blast
  have "map_of acc' = map_of (ownProps d)" using b by (auto simp: fun_eq_iff split: option.splits)
  then show ?thesis using a t by (simp add: deepMixIn_def)
qed

lemma getprop_ownProps:
  "isObject d \<Longrightarrow> k \<noteq> ''length'' \<Longrightarrow>
   getprop d k = (case map_of (ownProps d) k of Some x \<Rightarrow> x | None \<Rightarrow> JUndefined)"
  by (cases d) (simp_all add: getprop.simps map_of_clearjunk)

lemma hasprop_ownProps:
  "isObject d \<Longrightarrow> k \<noteq> ''length'' \<Longrightarrow> hasprop d k \<longleftrightarrow> map_of (ownProps d) k \<noteq> None"
  by (cases d) (simp_all add: hasprop.simps map_of_eq_None_iff map_of_clearjunk)

lemma Resource_props:
  assumes "isObject d" "isString (getprop d ''name'')"
  shows "\<exists>ps. Resource proto d = JObj ps
     \<and> map_of ps ''endpoint''
          = Some (if hasprop d ''endpoint'' then getprop d ''endpoint'' else getprop d ''name'')
     \<and> (\<forall>k. k \<noteq> ''endpoint'' \<longrightarrow> map_of ps k = map_of (ownProps d) k)"
proof -
  from deepMixIn_object [OF assms(1)] obtain qs where
    q: "deepMixIn (JObj []) d = JObj qs" "map_of qs = map_of (ownProps d)" by blast
  have nm: "map_of (ownProps d) ''name'' \<noteq> None"
    using assms by (auto simp: getprop_ownProps split: option.splits)
  have "lookup proto (JObj qs) ''name'' = getprop d ''name''"
    using nm assms(1) by (auto simp: lookup_def hasprop_JObj getprop_JObj q getprop_ownProps)
  then show ?thesis
    by (auto simp: Resource_def q Let_def update_conv')
qed

lemma getprop_nullish: "nullish r \<Longrightarrow> getprop r k = JUndefined"
  by (cases r) (simp_all add: getprop.simps ownProps.simps)

lemma forEachRelation_fold:
  "forEachRelation m rs def = Inr def' \<Longrightarrow>
   def' = foldl applyFlag def (map (Pair m) (filter (\<lambda>r. truthy (getprop r ''parent'')) rs))"
proof (induction rs arbitrary: def)
  case Nil
  then show ?case by simp
next
  case (Cons r rs)
  show ?case
  proof (cases "nullish r")
    case True
    with Cons.prems show ?thesis by (simp add: readprop_def)
  next
    case False
    with Cons.prems Cons.IH show ?thesis
      by (auto simp: readprop_def applyFlag_def)
  qed
qed

lemma forOwnBelongsTo_fold:
  "forOwnBelongsTo bt def = Inr def' \<Longrightarrow> def' = foldl applyFlag def (flagged bt)"
proof (induction bt arbitrary: def)
  case Nil
  then show ?case by (simp add: flagged_def)
next
  case (Cons p bt)
  obtain m rm where p: "p = (m, rm)" by (cases p)
  from Cons.prems obtain d1 where
    a: "forEachRelation m (relationList rm) def = Inr d1" and b: "forOwnBelongsTo bt d1 = Inr def'"
    by (auto simp: p split: sum.splits)
  from Cons.IH [OF b] forEachRelation_fold [OF a] show ?case
    by (simp add: p flagged_def)
qed

lemma applyFlag_frame: "frame {''parent'', ''parentKey''} (JObj ps) (applyFlag (JObj ps) f)"
  by (simp add: applyFlag_def frame_def update_conv')

lemma foldl_applyFlag_frame:
  "frame {''parent'', ''parentKey''} (JObj ps) (foldl applyFlag (JObj ps) fl)"
proof (induction fl rule: rev_induct)
  case Nil
  then show ?case by (simp add: frame_refl)
next
  case (snoc f fl)
  from frame_JObj [OF snoc] obtain qs where q: "foldl applyFlag (JObj ps) fl = JObj qs" by blast
  from frame_trans [OF snoc [unfolded q] applyFlag_frame [of qs f]] show ?case
    by (simp add: q)
qed

lemma foldl_applyFlag_last:
  assumes "fl \<noteq> []"
  shows "getprop (foldl applyFlag (JObj ps) fl) ''parent'' = JStr (fst (last fl))
     \<and> getprop (foldl applyFlag (JObj ps) fl) ''parentKey'' = getprop (snd (last fl)) ''localKey''
     \<and> hasprop (foldl applyFlag (JObj ps) fl) ''parent''
     \<and> hasprop (foldl applyFlag (JObj ps) fl) ''parentKey''"
proof -
  from assms obtain f fl' where fl: "fl = fl' @ [f]" by (cases fl rule: rev_cases) auto
  from frame_JObj [OF foldl_applyFlag_frame [of ps fl']] obtain qs where
    q: "foldl applyFlag (JObj ps) fl' = JObj qs" by blast
  show ?thesis by (simp add: fl q applyFlag_def update_conv')
qed

lemma setupParent_fold:
  assumes "setupParent proto (JObj ps) = Inr def'"
  shows "frame {''parent'', ''parentKey''} (JObj ps) def'"
proof (cases "truthy (lookup proto (JObj ps) ''relations'')
     \<and> truthy (getprop (lookup proto (JObj ps) ''relations'') ''belongsTo'')")
  case True
  with assms have "forOwnBelongsTo
      (ownProps (getprop (lookup proto (JObj ps) ''relations'') ''belongsTo'')) (JObj ps) = Inr def'"
    by (simp add: setupParent_def Let_def)
  from forOwnBelongsTo_fold [OF this] show ?thesis by (simp add: foldl_applyFlag_frame)
next
  case False
  with assms have "def' = JObj ps" by (auto simp: setupParent_def Let_def)
  then show ?thesis by (simp add: frame_refl)
qed

lemma renameFilter_frame:
  "frame {''defaultFilter'', ''filter''} (JObj ps) (renameFilter proto (JObj ps))"
  by (simp add: renameFilter_def frame_def update_conv' delete_conv')

lemma setClassPrototype_frame: "frame {c} (JObj ps) (setClassPrototype (JObj ps) c p)"
  by (simp add: setClassPrototype_def frame_def update_conv')

lemma setupClass_frame:
  assumes "setupClass u proto d (JObj ps) = Inr def'"
  shows "frame {''class'', pascalCase u (to_str (getprop d ''name''))} (JObj ps) def'"
  using assms
  by (auto simp: setupClass_def Let_def frame_def update_conv' setClassPrototype_def
      split: sum.splits if_splits)

lemma setupComputed_frame:
  assumes "setupComputed proto c (JObj ps) = (Inr def', w)"
  shows "frame {''computed'', c} (JObj ps) def'"
  using assms
  by (auto simp: setupComputed_def Let_def frame_def update_conv' setClassPrototype_def
      split: sum.splits if_splits prod.splits)

lemma installProxy_eq: "installProxy r = (\<lambda>def name. setprop def name (proxyFor r name))"
  by (intro ext) (simp add: installProxy_def proxyFor_def)

lemma foldl_installProxy:
  "\<forall>m\<in>S. map_of ps m = Some (proxyFor r m) \<Longrightarrow>
   \<exists>ps'. foldl (\<lambda>def name. setprop def name (proxyFor r name)) (JObj ps) ms = JObj ps'
     \<and> (\<forall>m \<in> S \<union> set ms. map_of ps' m = Some (proxyFor r m))
     \<and> (\<forall>k. k \<notin> set ms \<longrightarrow> map_of ps' k = map_of ps k)"
proof (induction ms arbitrary: ps S)
  case Nil
  then show ?case by simp
next
  case (Cons m ms)
  have "\<forall>x\<in>insert m S. map_of (AList.update m (proxyFor r m) ps) x = Some (proxyFor r x)"
    using Cons.prems by (simp add: update_conv')
  from Cons.IH [OF this] obtain ps' where
    a: "foldl (\<lambda>def name. setprop def name (proxyFor r name))
          (JObj (AList.update m (proxyFor r m) ps)) ms = JObj ps'"
    and b: "\<forall>x \<in> insert m S \<union> set ms. map_of ps' x = Some (proxyFor r x)"
    and c: "\<forall>k. k \<notin> set ms \<longrightarrow> map_of ps' k = map_of (AList.update m (proxyFor r m) ps) k"
    by blast
  show ?case using a b c by (auto simp: update_conv')
qed

lemma installProxies_props:
  "\<exists>ps'. installProxies r (JObj ps) = JObj ps'
     \<and> (\<forall>m \<in> set methodsToProxy. map_of ps' m = Some (proxyFor r m))
     \<and> (\<forall>k. k \<notin> set methodsToProxy \<longrightarrow> map_of ps' k = map_of ps k)"
  using foldl_installProxy [of "{}" ps r methodsToProxy]
  by (simp add: installProxies_def installProxy_eq)

lemma installProxies_frame: "frame (set methodsToProxy) (JObj ps) (installProxies r (JObj ps))"
  using installProxies_props [of r ps] by (auto simp: frame_def)

lemma validate_None:
  "validate s d = None \<Longrightarrow>
   isObject d \<and> isString (getprop d ''name'') \<and> store s (to_str (getprop d ''name'')) = None"
  by (auto simp: validate_def split: if_splits)

lemma defineResource_success:
  assumes "defineResource u d s = (Inr def, s')"
  shows "\<exists>def1 def4 def5 w.
     validate s (normalize d) = None
     \<and> setupParent (defaults s) (Resource (defaults s) (normalize d)) = Inr def1
     \<and> setupClass u (defaults s) (normalize d)
          (renameFilter (defaults s) (setprop def1 ''getEndpoint'' (JFun GetEndpointFn [])))
         = Inr def4
     \<and> setupComputed (defaults s) (pascalCase u (to_str (getprop (normalize d) ''name''))) def4
         = (Inr def5, w)
     \<and> def = installProxies (defName (defaults s) def5) def5
     \<and> definitions s' = (definitions s)(to_str (getprop (normalize d) ''name'') \<mapsto> def)
     \<and> store s' = (store s)(defName (defaults s) def5 \<mapsto>
          newStore (''DS.'' @ defName (defaults s)
             (renameFilter (defaults s) (setprop def1 ''getEndpoint'' (JFun GetEndpointFn [])))))
     \<and> defaults s' = defaults s"
  using assms
  by (auto simp: defineResource_def tryBlock_def Let_def cacheFactory_def
      split: option.splits sum.splits prod.splits)

lemma defineResource_stages:
  assumes "defineResource u d s = (Inr def, s')"
  shows "\<exists>ps0 def1 def4 def5 w.
     Resource (defaults s) (normalize d) = JObj ps0
     \<and> setupParent (defaults s) (JObj ps0) = Inr def1
     \<and> frame {''parent'', ''parentKey''} (JObj ps0) def1
     \<and> frame {''getEndpoint'', ''defaultFilter'', ''filter'', ''class'',
                pascalCase u (to_str (getprop (normalize d) ''name''))} def1 def4
     \<and> setupComputed (defaults s) (pascalCase u (to_str (getprop (normalize d) ''name''))) def4
         = (Inr def5, w)
     \<and> frame {''computed'', pascalCase u (to_str (getprop (normalize d) ''name''))} def4 def5
     \<and> def = installProxies (defName (defaults s) def5) def5
     \<and> frame (set methodsToProxy) def5 def
     \<and> definitions s' = (definitions s)(to_str (getprop (normalize d) ''name'') \<mapsto> def)
     \<and> (\<exists>r. store s' = (store s)(defName (defaults s) def5 \<mapsto> r))
     \<and> defaults s' = defaults s"
proof -
  let ?dn = "normalize d" and ?proto = "defaults s"
  let ?c = "pascalCase u (to_str (getprop ?dn ''name''))"
  from defineResource_success [OF assms] obtain def1 def4 def5 w where
    v: "validate s ?dn = None"
    and p: "setupParent ?proto (Resource ?proto ?dn) = Inr def1"
    and cl: "setupClass u ?proto ?dn
          (renameFilter ?proto (setprop def1 ''getEndpoint'' (JFun GetEndpointFn []))) = Inr def4"
    and co: "setupComputed ?proto ?c def4 = (Inr def5, w)"
    and d: "def = installProxies (defName ?proto def5) def5"
    and st: "definitions s' = (definitions s)(to_str (getprop ?dn ''name'') \<mapsto> def)"
      "store s' = (store s)(defName ?proto def5 \<mapsto>
          newStore (''DS.'' @ defName ?proto
             (renameFilter ?proto (setprop def1 ''getEndpoint'' (JFun GetEndpointFn [])))))"
      "defaults s' = defaults s"
    by blast
  from validate_None [OF v] have o: "isObject ?dn" "isString (getprop ?dn ''name'')" by auto
  from Resource_props [OF o] obtain ps0 where r: "Resource ?proto ?dn = JObj ps0" by blast
  have f1: "frame {''parent'', ''parentKey''} (JObj ps0) def1"
    using setupParent_fold p r by simp
  then obtain ps1 where d1: "def1 = JObj ps1" by (auto dest: frame_JObj)
  obtain ps2 where d2: "setprop def1 ''getEndpoint'' (JFun GetEndpointFn []) = JObj ps2"
    by (simp add: d1)
  have f2: "frame {''getEndpoint''} def1 (JObj ps2)"
    using frame_setprop [of "''getEndpoint''" ps1 "JFun GetEndpointFn []"] d2 d1 by auto
  have f3: "frame {''defaultFilter'', ''filter''} (JObj ps2) (renameFilter ?proto (JObj ps2))"
    by (rule renameFilter_frame)
  then obtain ps3 where d3: "renameFilter ?proto (JObj ps2) = JObj ps3" by (auto dest: frame_JObj)
  have f4: "frame {''class'', ?c} (JObj ps3) def4"
    using setupClass_frame [of u ?proto ?dn ps3 def4] cl d2 d3 by simp
  then obtain ps4 where d4: "def4 = JObj ps4" by (auto dest: frame_JObj)
  have f5: "frame {''computed'', ?c} def4 def5"
    using setupComputed_frame [of ?proto ?c ps4 def5 w] co d4 by simp
  then obtain ps5 where d5: "def5 = JObj ps5" by (auto dest: frame_JObj)
  have f6: "frame (set methodsToProxy) def5 def"
    using installProxies_frame [of ps5] d d5 by simp
  have f24: "frame {''getEndpoint'', ''defaultFilter'', ''filter'', ''class'', ?c} def1 def4"
    using frame_trans [OF frame_trans [OF f2 f3 [unfolded d3]] f4]
    by (rule frame_mono) auto
  have "\<exists>r. store s' = (store s)(defName ?proto def5 \<mapsto> r)" using st(2) by blast
  with r p f1 f24 co f5 d f6 st(1,3) show ?thesis by (metis r)
qed

subsection \<open>Defaults and the parent\<close>

lemma defineResource_frame:
  assumes "defineResource u d s = (Inr def, s')"
  shows "frame (touched u (normalize d)) (Resource (defaults s) (normalize d)) def"
proof -
  from defineResource_stages [OF assms] obtain ps0 def1 def4 def5 w where
    r: "Resource (defaults s) (normalize d) = JObj ps0"
    and f1: "frame {''parent'', ''parentKey''} (JObj ps0) def1"
    and f2: "frame {''getEndpoint'', ''defaultFilter'', ''filter'', ''class'',
                pascalCase u (to_str (getprop (normalize d) ''name''))} def1 def4"
    and f3: "frame {''computed'', pascalCase u (to_str (getprop (normalize d) ''name''))} def4 def5"
    and f4: "frame (set methodsToProxy) def5 def"
    by blast
  from frame_trans [OF frame_trans [OF frame_trans [OF f1 f2] f3] f4]
  show ?thesis unfolding r touched_def by (rule frame_mono) auto
qed

lemma in_methodsToProxy:
  "k \<in> set methodsToProxy \<Longrightarrow> k \<notin> {''endpoint'', ''idAttribute'', ''name'', ''parent'', ''parentKey'', ''computed'', ''methods''}"
  by (auto simp: methodsToProxy_def)

lemma lookup_Resource:
  assumes "isObject d" "isString (getprop d ''name'')" "k \<noteq> ''endpoint''" "k \<noteq> ''length''"
  shows "lookup proto (Resource proto d) k = lookup proto d k"
    and "getprop (Resource proto d) k = getprop d k"
    and "hasprop (Resource proto d) k = hasprop d k"
proof -
  from Resource_props [OF assms(1,2), of proto] obtain ps where
    r: "Resource proto d = JObj ps" and m: "\<forall>k. k \<noteq> ''endpoint'' \<longrightarrow> map_of ps k = map_of (ownProps d) k"
    by blast
  show "getprop (Resource proto d) k = getprop d k"
    using assms m by (simp add: r getprop_ownProps)
  show "hasprop (Resource proto d) k = hasprop d k"
    using assms m by (simp add: r hasprop_ownProps)
  then show "lookup proto (Resource proto d) k = lookup proto d k"
    using assms m by (simp add: lookup_def r getprop_ownProps)
qed

text \<open>
  C9. After a successful registration the endpoint of the resource is the endpoint of the
  definition when the definition has one, and its name otherwise; idAttribute is the one
  of the definition when it has one and is otherwise inherited from the defaults, where
  it is "id". The class name that \<^verbatim>\<open>pascalCase\<close> returns is stored on the resource
  under itself (line 209) and must not be one of the two keys.
\<close>

theorem endpoint_defaults_to_name:
  assumes "defineResource u d s = (Inr def, s')"
    and "pascalCase u (to_str (getprop (normalize d) ''name'')) \<notin> {''endpoint'', ''idAttribute''}"
    and "map_of (defaults s) ''idAttribute'' = Some (JStr ''id'')"
  shows "getprop def ''endpoint''
         = (if hasprop (normalize d) ''endpoint'' then getprop (normalize d) ''endpoint''
            else getprop (normalize d) ''name'')
     \<and> lookup (defaults s') def ''idAttribute''
         = (if hasprop (normalize d) ''idAttribute'' then getprop (normalize d) ''idAttribute''
            else JStr ''id'')"
proof -
  let ?dn = "normalize d"
  from defineResource_success [OF assms(1)] have v: "validate s ?dn = None"
    and ds: "defaults s' = defaults s" by auto
  from validate_None [OF v] have o: "isObject ?dn" "isString (getprop ?dn ''name'')" by auto
  have e: "''endpoint'' \<notin> touched u ?dn" and i: "''idAttribute'' \<notin> touched u ?dn"
    using assms(2) by (auto simp: touched_def methodsToProxy_def)
  note f = defineResource_frame [OF assms(1)]
  from Resource_props [OF o, of "defaults s"] have
    "getprop (Resource (defaults s) ?dn) ''endpoint''
       = (if hasprop ?dn ''endpoint'' then getprop ?dn ''endpoint'' else getprop ?dn ''name'')"
    by auto
  then have 1: "getprop def ''endpoint''
         = (if hasprop ?dn ''endpoint'' then getprop ?dn ''endpoint'' else getprop ?dn ''name'')"
    using frame_getprop [OF f e] by simp
  have "lookup (defaults s) def ''idAttribute'' = lookup (defaults s) ?dn ''idAttribute''"
    using frame_lookup [OF f i] lookup_Resource(1) [OF o] by simp
  then have 2: "lookup (defaults s') def ''idAttribute''
         = (if hasprop ?dn ''idAttribute'' then getprop ?dn ''idAttribute'' else JStr ''id'')"
    using assms(3) by (simp add: ds lookup_def)
  from 1 2 show ?thesis by simp
qed

theorem endpoint_defaults_to_name_witness:
  "\<not> isl (fst (defineResource mout (JStr ''user'') emptyDS))
   \<and> pascalCase mout (to_str (getprop (normalize (JStr ''user'')) ''name''))
        \<notin> {''endpoint'', ''idAttribute''}
   \<and> map_of (defaults emptyDS) ''idAttribute'' = Some (JStr ''id'')
   \<and> getprop (projr (fst (defineResource mout (JStr ''user'') emptyDS))) ''endpoint''
        = JStr ''user''
   \<and> lookup (defaults (snd (defineResource mout (JStr ''user'') emptyDS)))
          (projr (fst (defineResource mout (JStr ''user'') emptyDS))) ''idAttribute''
        = JStr ''id''"
proof -
  let ?r = "defineResource mout (JStr ''user'') emptyDS"
  have a: "\<not> isl (fst ?r)" by code_simp
  then have 1: "?r = (Inr (projr (fst ?r)), snd ?r)"
    by (cases "fst ?r") (auto simp: prod_eq_iff)
  have 2: "pascalCase mout (to_str (getprop (normalize (JStr ''user'')) ''name''))
        \<notin> {''endpoint'', ''idAttribute''}" by code_simp
  have 3: "map_of (defaults emptyDS) ''idAttribute'' = Some (JStr ''id'')" by code_simp
  have 4: "\<not> hasprop (normalize (JStr ''user'')) ''endpoint''"
    "\<not> hasprop (normalize (JStr ''user'')) ''idAttribute''"
    "getprop (normalize (JStr ''user'')) ''name'' = JStr ''user''" by code_simp+
  from endpoint_defaults_to_name [OF 1 2 3] a 2 3 4 show ?thesis by simp
qed

lemma show_nat_digits: "set (show_nat n) \<subseteq> set ''0123456789''"
proof (induction n rule: show_nat.induct)
  case (1 n)
  have d: "\<And>m. m < 10 \<Longrightarrow> digit m \<in> set ''0123456789''"
    unfolding digit_def by (rule nth_mem) simp
  show ?case
  proof (cases "n < 10")
    case True
    then show ?thesis using d [of n] by (subst show_nat.simps) simp
  next
    case False
    then show ?thesis using 1 d [of "n mod 10"] by (subst show_nat.simps) simp
  qed
qed

lemma indexed_key:
  assumes "map_of (indexed xs) k = Some v"
  shows "set k \<subseteq> set ''0123456789''"
proof -
  from assms have "k \<in> fst ` set (indexed xs)" by (metis map_of_eq_None_iff option.distinct(1))
  then have "k \<in> set (map show_nat [0 ..< length xs])"
    by (auto simp: indexed_def dest: set_zip_leftD)
  then show ?thesis using show_nat_digits by auto
qed

lemma props_truthy: "ownProps v \<noteq> [] \<Longrightarrow> truthy v"
  by (cases v) (auto simp: ownProps.simps indexed_def)

lemma getprop_belongsTo_truthy:
  assumes "ownProps (getprop r ''belongsTo'') \<noteq> []"
  shows "truthy r"
proof (cases r)
  case (JStr x)
  have "map_of (ownProps (JStr x)) ''belongsTo'' = None"
  proof (cases "map_of (ownProps (JStr x)) ''belongsTo''")
    case (Some v)
    then have "set ''belongsTo'' \<subseteq> set ''0123456789''"
      by (intro indexed_key [of "map (\<lambda>c. JStr [c]) x" _ v]) (simp add: ownProps.simps)
    then show ?thesis by simp
  qed simp
  then show ?thesis using assms by (simp add: JStr getprop.simps ownProps.simps)
qed (use assms in \<open>auto simp: getprop.simps ownProps.simps\<close>)

text \<open>
  C7. When the \<^verbatim>\<open>belongsTo\<close> relations of a registered resource include relations that
  carry the parent flag, the parent of the resource is the name under which the last of
  them is declared and its parentKey is the localKey of that relation: one parent, the
  last one processed. The class name must not be one of the two keys.
\<close>

theorem parent_is_last_flagged:
  assumes "defineResource u d s = (Inr def, s')"
    and "pascalCase u (to_str (getprop (normalize d) ''name'')) \<notin> {''parent'', ''parentKey''}"
    and "flagged (ownProps (getprop (lookup (defaults s) (normalize d) ''relations'')
           ''belongsTo'')) = fl"
    and "fl \<noteq> []"
  shows "getprop def ''parent'' = JStr (fst (last fl))
     \<and> getprop def ''parentKey'' = getprop (snd (last fl)) ''localKey''"
proof -
  let ?dn = "normalize d" and ?proto = "defaults s"
  let ?c = "pascalCase u (to_str (getprop ?dn ''name''))"
  let ?rel = "lookup ?proto ?dn ''relations''"
  from defineResource_success [OF assms(1)] have v: "validate s ?dn = None" by auto
  from validate_None [OF v] have o: "isObject ?dn" "isString (getprop ?dn ''name'')" by auto
  from defineResource_stages [OF assms(1)] obtain ps0 def1 def4 def5 w where
    r: "Resource ?proto ?dn = JObj ps0"
    and p: "setupParent ?proto (JObj ps0) = Inr def1"
    and f2: "frame {''getEndpoint'', ''defaultFilter'', ''filter'', ''class'', ?c} def1 def4"
    and f3: "frame {''computed'', ?c} def4 def5"
    and f4: "frame (set methodsToProxy) def5 def"
    by blast
  have rel: "lookup ?proto (JObj ps0) ''relations'' = ?rel"
    using lookup_Resource(1) [OF o, of "''relations''" ?proto] by (simp add: r)
  have ne: "ownProps (getprop ?rel ''belongsTo'') \<noteq> []"
    using assms(3,4) by (auto simp: flagged_def)
  have t: "truthy ?rel" "truthy (getprop ?rel ''belongsTo'')"
    using ne getprop_belongsTo_truthy props_truthy by auto
  have "forOwnBelongsTo (ownProps (getprop ?rel ''belongsTo'')) (JObj ps0) = Inr def1"
    using p t by (simp add: setupParent_def rel Let_def)
  from forOwnBelongsTo_fold [OF this] have d1: "def1 = foldl applyFlag (JObj ps0) fl"
    by (simp add: assms(3))
  have f: "frame ({''getEndpoint'', ''defaultFilter'', ''filter'', ''class'', ?c, ''computed''}
             \<union> set methodsToProxy) def1 def"
    using frame_trans [OF frame_trans [OF f2 f3] f4] by (rule frame_mono) auto
  have k: "''parent'' \<notin> ({''getEndpoint'', ''defaultFilter'', ''filter'', ''class'', ?c, ''computed''}
             \<union> set methodsToProxy)"
     "''parentKey'' \<notin> ({''getEndpoint'', ''defaultFilter'', ''filter'', ''class'', ?c, ''computed''}
             \<union> set methodsToProxy)"
    using assms(2) by (auto simp: methodsToProxy_def)
  show ?thesis
    using frame_getprop [OF f k(1)] frame_getprop [OF f k(2)]
      foldl_applyFlag_last [OF assms(4), of ps0] by (simp add: d1)
qed

subsection \<open>Forwarding and registering twice\<close>

theorem parent_is_last_flagged_witness:
  "\<not> isl (fst (defineResource mout commentDef emptyDS))
   \<and> pascalCase mout (to_str (getprop (normalize commentDef) ''name''))
        \<notin> {''parent'', ''parentKey''}
   \<and> flagged (ownProps (getprop (lookup (defaults emptyDS) (normalize commentDef) ''relations'')
          ''belongsTo''))
       = [(''post'', JObj [(''parent'', JBool True), (''localKey'', JStr ''postId'')]),
          (''user'', JObj [(''parent'', JBool True), (''localKey'', JStr ''ownerId'')])]
   \<and> getprop (projr (fst (defineResource mout commentDef emptyDS))) ''parent'' = JStr ''user''
   \<and> getprop (projr (fst (defineResource mout commentDef emptyDS))) ''parentKey''
       = JStr ''ownerId''"
proof -
  let ?r = "defineResource mout commentDef emptyDS"
  let ?fl = "[(''post'', JObj [(''parent'', JBool True), (''localKey'', JStr ''postId'')]),
          (''user'', JObj [(''parent'', JBool True), (''localKey'', JStr ''ownerId'')])]"
  have a: "\<not> isl (fst ?r)" by code_simp
  then have 1: "?r = (Inr (projr (fst ?r)), snd ?r)"
    by (cases "fst ?r") (auto simp: prod_eq_iff)
  have 2: "pascalCase mout (to_str (getprop (normalize commentDef) ''name''))
        \<notin> {''parent'', ''parentKey''}" by code_simp
  have 3: "flagged (ownProps (getprop (lookup (defaults emptyDS) (normalize commentDef)
          ''relations'') ''belongsTo'')) = ?fl" by code_simp
  have 4: "?fl \<noteq> []" by simp
  from parent_is_last_flagged [OF 1 2 3 4] a 2 3 show ?thesis by simp
qed

lemma defineResource_registered:
  assumes "defineResource u d s = (Inr def, s')"
    and "pascalCase u (to_str (getprop (normalize d) ''name'')) \<noteq> ''name''"
  shows "store s' (to_str (getprop (normalize d) ''name'')) \<noteq> None"
    and "definitions s' (to_str (getprop (normalize d) ''name'')) = Some def"
    and "\<forall>m \<in> set methodsToProxy.
           getprop def m = proxyFor (to_str (getprop (normalize d) ''name'')) m"
    and "lookup (defaults s) def ''name'' = getprop (normalize d) ''name''"
proof -
  let ?dn = "normalize d" and ?proto = "defaults s"
  let ?c = "pascalCase u (to_str (getprop ?dn ''name''))"
  from defineResource_success [OF assms(1)] have v: "validate s ?dn = None" by blast
  from validate_None [OF v] have o: "isObject ?dn" "isString (getprop ?dn ''name'')" by auto
  from defineResource_stages [OF assms(1)] obtain ps0 def1 def4 def5 w r0 where
    r: "Resource ?proto ?dn = JObj ps0"
    and f1: "frame {''parent'', ''parentKey''} (JObj ps0) def1"
    and f2: "frame {''getEndpoint'', ''defaultFilter'', ''filter'', ''class'', ?c} def1 def4"
    and f3: "frame {''computed'', ?c} def4 def5"
    and d': "def = installProxies (defName ?proto def5) def5"
    and f4: "frame (set methodsToProxy) def5 def"
    and de: "definitions s' = (definitions s)(to_str (getprop ?dn ''name'') \<mapsto> def)"
    and st: "store s' = (store s)(defName ?proto def5 \<mapsto> r0)"
    by blast
  have f: "frame {''parent'', ''parentKey'', ''getEndpoint'', ''defaultFilter'', ''filter'',
      ''class'', ?c, ''computed''} (JObj ps0) def5"
    using frame_trans [OF frame_trans [OF f1 f2] f3] by (rule frame_mono) auto
  have k: "''name'' \<notin> {''parent'', ''parentKey'', ''getEndpoint'', ''defaultFilter'', ''filter'',
      ''class'', ?c, ''computed''}" using assms(2) by auto
  have hn: "hasprop ?dn ''name''"
    using o by (cases "map_of (ownProps ?dn) ''name''") (auto simp: hasprop_ownProps getprop_ownProps)
  have l0: "lookup ?proto (JObj ps0) ''name'' = getprop ?dn ''name''"
    using lookup_Resource(1) [OF o, of "''name''" ?proto] hn by (simp add: r lookup_def)
  have l5: "lookup ?proto def5 ''name'' = getprop ?dn ''name''"
    using frame_lookup [OF f k] l0 by simp
  then have n5: "defName ?proto def5 = to_str (getprop ?dn ''name'')" by (simp add: defName_def)
  from f obtain ps5 where p5: "def5 = JObj ps5" by (auto dest: frame_JObj)
  show "store s' (to_str (getprop ?dn ''name'')) \<noteq> None" using st by (simp add: n5)
  show "definitions s' (to_str (getprop ?dn ''name'')) = Some def" using de by simp
  show "\<forall>m \<in> set methodsToProxy. getprop def m = proxyFor (to_str (getprop ?dn ''name'')) m"
    using installProxies_props [of "defName ?proto def5" ps5] d'
    unfolding n5 by (auto simp: p5)
  have "''name'' \<notin> set methodsToProxy" by (simp add: methodsToProxy_def)
  from frame_lookup [OF f4 this] l5 show "lookup ?proto def ''name'' = getprop ?dn ''name''" by simp
qed




lemma validate_registered:
  "shapeOK d \<Longrightarrow> store s (to_str (getprop d ''name'')) \<noteq> None \<Longrightarrow>
   validate s d
     = Some (RuntimeError (errorPrefix @ to_str (getprop d ''name'') @ '' is already registered!''))"
  by (auto simp: shapeOK_def validate_def)

text \<open>
  C4, as amended. A call of \<^verbatim>\<open>defineResource\<close> with a definition that passes the checks
  of lines 116-123 and whose name has an entry in the store throws the RuntimeError of
  line 125 and leaves the state as it is; and a successful registration leaves such an
  entry under the name, so that a name is registered at most once. The class name must
  not be \<^verbatim>\<open>name\<close>.
\<close>

theorem registered_at_most_once:
  "(shapeOK (normalize d) \<and> store s (to_str (getprop (normalize d) ''name'')) \<noteq> None
      \<longrightarrow> defineResource u d s
           = (Inl (RuntimeError (errorPrefix @ to_str (getprop (normalize d) ''name'')
                 @ '' is already registered!'')), s))
   \<and> (defineResource u d s0 = (Inr def, s)
        \<and> pascalCase u (to_str (getprop (normalize d) ''name'')) \<noteq> ''name''
      \<longrightarrow> store s (to_str (getprop (normalize d) ''name'')) \<noteq> None)"
  using validate_registered [of "normalize d" s] defineResource_registered(1) [of u d s0 def s]
  by (auto simp: defineResource_def)

theorem registered_at_most_once_witness:
  "shapeOK (normalize (JStr ''user''))
   \<and> \<not> isl (fst (defineResource mout (JStr ''user'') emptyDS))
   \<and> pascalCase mout (to_str (getprop (normalize (JStr ''user'')) ''name'')) \<noteq> ''name''
   \<and> store (snd (defineResource mout (JStr ''user'') emptyDS)) ''user'' \<noteq> None
   \<and> defineResource mout (JStr ''user'') (snd (defineResource mout (JStr ''user'') emptyDS))
       = (Inl (RuntimeError (errorPrefix @ ''user'' @ '' is already registered!'')),
          snd (defineResource mout (JStr ''user'') emptyDS))"
proof -
  let ?r = "defineResource mout (JStr ''user'') emptyDS"
  have a: "\<not> isl (fst ?r)" by code_simp
  then have 1: "?r = (Inr (projr (fst ?r)), snd ?r)"
    by (cases "fst ?r") (auto simp: prod_eq_iff)
  have 2: "pascalCase mout (to_str (getprop (normalize (JStr ''user'')) ''name'')) \<noteq> ''name''"
    by code_simp
  have 3: "shapeOK (normalize (JStr ''user''))" by code_simp
  have 4: "to_str (getprop (normalize (JStr ''user'')) ''name'') = ''user''" by code_simp
  from registered_at_most_once [of "JStr ''user''" "snd ?r" mout emptyDS "projr (fst ?r)"]
    1 2 3 a show ?thesis unfolding 4 by simp
qed

text \<open>
  C4 as stated fails when the second definition is malformed: the checks of lines
  116-123 come before the test of line 124, so that \<^verbatim>\<open>{name: 'user', idAttribute: 5}\<close>
  is refused with an IllegalArgumentError although \<^verbatim>\<open>user\<close> is registered.
\<close>

theorem malformed_second_registration:
  "store (snd (defineResource mout (JStr ''user'') emptyDS)) ''user'' \<noteq> None
   \<and> getprop userNumericId ''name'' = JStr ''user''
   \<and> fst (defineResource mout userNumericId (snd (defineResource mout (JStr ''user'') emptyDS)))
      = Inl (IllegalArgumentError (errorPrefix @ ''definition.idAttribute: Must be a string!''))"
  by code_simp

subsection \<open>Failure of a registration, and expiry\<close>

text \<open>
  C1 fails on the code. The definition \<^verbatim>\<open>{name: 'user', computed: {fullName: null}}\<close>
  passes the validation; line 227 then throws a TypeError on \<^verbatim>\<open>fn.length\<close>. The
  \<^verbatim>\<open>catch\<close> block removes the definition and the store entry and throws the error
  again, but the cache \<^verbatim>\<open>DS.user\<close> that line 188 has created is still in the collection
  of the factory, which did not have it before.
\<close>

theorem failed_registration_leaves_cache:
  "validate emptyDS userNullComputed = None
   \<and> fst (defineResource mout userNullComputed emptyDS) = Inl TypeError
   \<and> definitions (snd (defineResource mout userNullComputed emptyDS)) ''user'' = None
   \<and> store (snd (defineResource mout userNullComputed emptyDS)) ''user'' = None
   \<and> caches emptyDS ''DS.user'' = None
   \<and> caches (snd (defineResource mout userNullComputed emptyDS)) ''DS.user'' \<noteq> None"
  by code_simp

lemma defineResource_rollback:
  assumes "validate s (normalize d) = None"
    and "defineResource u d s = (Inl err, s')"
  shows "definitions s' (to_str (getprop (normalize d) ''name'')) = None
     \<and> store s' (to_str (getprop (normalize d) ''name'')) = None
     \<and> fst (tryBlock u (normalize d) s) = Inl err
     \<and> (\<forall>k. k \<noteq> to_str (getprop (normalize d) ''name'')
           \<longrightarrow> definitions s' k = definitions s k \<and> store s' k = store s k)"
proof -
  let ?nm = "to_str (getprop (normalize d) ''name'')"
  obtain r t where t: "tryBlock u (normalize d) s = (r, t)" by (cases "tryBlock u (normalize d) s")
  from assms t have r: "r = Inl err" and s': "s' = rollback err ?nm t"
    by (auto simp: defineResource_def split: sum.splits)
  have "\<forall>k. k \<noteq> ?nm \<longrightarrow> definitions t k = definitions s k \<and> store t k = store s k"
    using t unfolding r
    by (auto simp: tryBlock_def Let_def cacheFactory_def split: sum.splits prod.splits)
  then show ?thesis by (simp add: s' rollback_def t r)
qed





subsection \<open>Computed properties\<close>













subsection \<open>The endpoint of a nested resource\<close>

lemma prepared_prepareOptions: "prepared (prepareOptions (JObj ops))"
  by (simp add: prepared_def prepareOptions_def oror_def Let_def update_conv')

lemma truthy_delprop: "truthy v \<Longrightarrow> truthy (delprop v k)"
  by (cases v) simp_all

lemma prepared_deleteParam: "prepared options \<Longrightarrow> prepared (deleteParam options k)"
  by (auto simp: prepared_def deleteParam_def update_conv' truthy_delprop)

lemma param_prepared:
  "prepared options \<Longrightarrow> param options k = Inr (getprop (getprop options ''params'') k)"
  by (cases "getprop options ''params''") (auto simp: prepared_def param_def readprop_def)

lemma finish_prepared:
  assumes "prepared options"
  shows "\<exists>options'. finish options k endpoint thisEndpoint = Inr (oror endpoint thisEndpoint, options')
      \<and> prepared options'"
  using assms by (simp add: finish_def param_prepared prepared_deleteParam)

lemma finish_preparedD:
  assumes "prepared options" and "finish options k endpoint thisEndpoint = Inr (x, options')"
  shows "x = oror endpoint thisEndpoint \<and> prepared options'"
  using assms by (auto simp: finish_def param_prepared prepared_deleteParam)

lemma compose_prepared:
  assumes "prepared options2"
  shows "\<exists>options'. compose u src attrs item k thisEndpoint parentEndpoint options2
      = Inr (oror (makePath u [parentEndpoint,
                     (case src of FromAttrs \<Rightarrow> getprop attrs k
                      | FromItem \<Rightarrow> getprop item k
                      | FromParams \<Rightarrow> getprop (getprop options2 ''params'') k),
                     thisEndpoint]) thisEndpoint, options')
      \<and> prepared options'"
proof (cases src)
  case FromParams
  then show ?thesis
    using finish_prepared [OF prepared_deleteParam [OF assms]]
    by (simp add: compose_def param_prepared [OF assms])
qed (use finish_prepared [OF assms] in \<open>simp_all add: compose_def\<close>)

lemma thisEndpointOf_object:
  "thisEndpointOf s this (JObj ops)
     = Inr (oror (getprop (JObj ops) ''endpoint'') (lookup (defaults s) this ''endpoint''))"
  by (simp add: thisEndpointOf_def readprop_def)

lemma getEndpoint_result:
  assumes "getEndpoint u n s this attrs (JObj ops) = Some (Inr (e, options'))"
  defines "k \<equiv> to_str (lookup (defaults s) this ''parentKey'')"
    and "te \<equiv> oror (getprop (JObj ops) ''endpoint'') (lookup (defaults s) this ''endpoint'')"
    and "options \<equiv> prepareOptions (JObj ops)"
  shows "(keySource s this attrs options = Inr None
          \<and> finish options k JUndefined te = Inr (e, options'))
     \<or> (\<exists>src item pd f gps.
          keySource s this attrs options = Inr (Some (src, item))
          \<and> definitions s (to_str (lookup (defaults s) this ''parent'')) = Some pd
          \<and> lookup (defaults s) pd ''getEndpoint'' = JFun f gps
          \<and> ((\<exists>c. f = ClassFn c
                \<and> compose u src attrs item k te JUndefined (forParent src options k)
                   = Inr (e, options'))
             \<or> (\<exists>m pe o2. f = GetEndpointFn \<and> n = Suc m
                \<and> getEndpoint u m s pd attrs (forParent src options k)
                   = Some (Inr (pe, o2))
                \<and> compose u src attrs item k te pe o2 = Inr (e, options'))))"
  using assms(1) unfolding k_def te_def options_def
  by (subst (asm) getEndpoint.simps)
     (auto simp: thisEndpointOf_object Let_def
        split: sum.splits option.splits jsval.splits fn.splits nat.splits)

lemma compose_preparedD:
  assumes "prepared options2"
    and "compose u src attrs item k thisEndpoint parentEndpoint options2 = Inr (e, options')"
  shows "prepared options'"
  using compose_prepared [OF assms(1), of u src attrs item k thisEndpoint parentEndpoint] assms(2)
  by auto

lemma forParent_prepared: "prepared (forParent src (prepareOptions (JObj ops)) k)"
  by (simp add: forParent_def prepared_prepareOptions prepared_deleteParam)

lemma getEndpoint_prepared:
  "getEndpoint u n s this attrs (JObj ops) = Some (Inr (e, options')) \<Longrightarrow> prepared options'"
proof (induction n arbitrary: this ops e options')
  case 0
  from getEndpoint_result [OF 0] show ?case
    by (auto dest: finish_preparedD [OF prepared_prepareOptions]
        compose_preparedD [OF forParent_prepared])
next
  case (Suc n)
  from getEndpoint_result [OF Suc.prems] show ?case
  proof (elim disjE exE conjE)
    fix src item pd f gps m pe o2
    assume rc: "getEndpoint u m s pd attrs
         (forParent src (prepareOptions (JObj ops))
            (to_str (lookup (defaults s) this ''parentKey'')))
        = Some (Inr (pe, o2))"
      and m: "Suc n = Suc m"
      and co: "compose u src attrs item (to_str (lookup (defaults s) this ''parentKey''))
         (oror (getprop (JObj ops) ''endpoint'') (lookup (defaults s) this ''endpoint'')) pe o2
        = Inr (e, options')"
    obtain ops' where o': "forParent src (prepareOptions (JObj ops))
            (to_str (lookup (defaults s) this ''parentKey'')) = JObj ops'"
      using forParent_prepared [of src ops "to_str (lookup (defaults s) this ''parentKey'')"]
      unfolding prepared_def by blast
    from rc m have "getEndpoint u n s pd attrs (JObj ops') = Some (Inr (pe, o2))"
      by (simp add: o')
    from compose_preparedD [OF Suc.IH [OF this] co] show ?thesis .
  qed (auto dest: finish_preparedD [OF prepared_prepareOptions]
        compose_preparedD [OF forParent_prepared])
qed

lemma keySource_resolved:
  assumes "lookup (defaults s) this ''parent'' = JStr p" and "p \<noteq> []"
    and "lookup (defaults s) this ''parentKey'' = JStr k" and "k \<noteq> []"
    and "prepared options"
    and "\<not> truthy (injected s this attrs) \<or> isObject (injected s this attrs)"
  shows "keySource s this attrs options
     = Inr (if definitions s p = None \<or> getprop (getprop options ''params'') k = JBool False
            then None
            else map_option (\<lambda>src. (src, injected s this attrs))
                   (resolvedFrom attrs (injected s this attrs) options k))"
proof -
  have i: "(if isNumber attrs \<or> isString attrs then DSget (defName (defaults s) this) attrs s
            else JUndefined) = injected s this attrs"
    by (simp add: injected_def)
  have o: "isObject v \<Longrightarrow> truthy v" for v by (cases v) auto
  show ?thesis
    using assms(2,4,6) o [of "injected s this attrs"]
    unfolding keySource_def Let_def assms(1,3) i param_prepared [OF assms(5)]
    by (auto simp: resolvedFrom_def js_in_def)
qed

lemma keySource_Some:
  "keySource s this attrs options = Inr (Some a) \<Longrightarrow>
   definitions s (to_str (lookup (defaults s) this ''parent'')) \<noteq> None"
  by (auto simp: keySource_def Let_def split: if_splits sum.splits)

lemma getEndpoint_returns:
  assumes "\<And>d pd. definitions s (to_str (lookup (defaults s) d ''parent'')) = Some pd
             \<Longrightarrow> rank pd < rank d"
    and "rank this \<le> n"
  shows "getEndpoint u n s this attrs options \<noteq> None"
  using assms(2)
proof (induction n arbitrary: this options)
  case 0
  have "definitions s (to_str (lookup (defaults s) this ''parent'')) = None"
    using assms(1) [of this] 0 by (cases "definitions s (to_str (lookup (defaults s) this ''parent''))") auto
  then show ?case
    using keySource_Some [of s this attrs "prepareOptions options"]
    by (subst getEndpoint.simps) (auto simp: Let_def split: sum.splits option.splits)
next
  case (Suc n)
  show ?case
  proof (cases "definitions s (to_str (lookup (defaults s) this ''parent''))")
    case None
    then show ?thesis
      using keySource_Some [of s this attrs "prepareOptions options"]
      by (subst getEndpoint.simps) (auto simp: Let_def split: sum.splits option.splits)
  next
    case (Some pd)
    then have "rank pd \<le> n" using assms(1) [of this pd] Suc.prems by simp
    from Suc.IH [OF this] have ih: "(getEndpoint u n s pd attrs x = None) = False" for x
      by simp
    show ?thesis
      by (subst getEndpoint.simps)
         (auto simp: Let_def Some ih
            split: sum.splits option.splits prod.splits jsval.splits fn.splits)
  qed
qed

lemma self_parent_loops:
  assumes "lookup (defaults s) this ''parent'' = JStr p" and "p \<noteq> []"
    and "lookup (defaults s) this ''parentKey'' = JStr k" and "k \<noteq> []"
    and "definitions s p = Some this"
    and "lookup (defaults s) this ''getEndpoint'' = JFun GetEndpointFn gps"
    and "isObject attrs" and "hasprop attrs k"
    and "getprop (prepareOptions (JObj ops)) ''params'' = JObj ps"
    and "map_of ps k \<noteq> Some (JBool False)"
  shows "getEndpoint u n s this attrs (JObj ops) = None"
  using assms(9,10)
proof (induction n arbitrary: ops ps)
  case 0
  have ks: "keySource s this attrs (prepareOptions (JObj ops)) = Inr (Some (FromAttrs, injected s this attrs))"
    using assms(2,4,5,7,8) 0
    by (auto simp: keySource_def Let_def assms(1,3) param_def readprop_def injected_def
        split: option.splits)
  show ?case
    by (subst getEndpoint.simps) (simp add: thisEndpointOf_object Let_def ks assms(1,3,5,6))
next
  case (Suc n)
  have ks: "keySource s this attrs (prepareOptions (JObj ops)) = Inr (Some (FromAttrs, injected s this attrs))"
    using assms(2,4,5,7,8) Suc.prems
    by (auto simp: keySource_def Let_def assms(1,3) param_def readprop_def injected_def
        split: option.splits)
  obtain ops1 where o1: "prepareOptions (JObj ops) = JObj ops1"
    using prepared_prepareOptions [of ops] by (auto simp: prepared_def)
  let ?ops' = "AList.update ''params'' (JObj (AList.delete k ps)) ops1"
  have d: "forParent FromAttrs (prepareOptions (JObj ops)) k = JObj ?ops'"
    using Suc.prems(1) by (simp add: forParent_def deleteParam_def o1)
  have "getprop (prepareOptions (JObj ?ops')) ''params'' = JObj (AList.delete k ps)"
    by (simp add: prepareOptions_def Let_def oror_def update_conv' delete_conv')
  moreover have "map_of (AList.delete k ps) k \<noteq> Some (JBool False)"
    by (simp add: delete_conv')
  ultimately have "getEndpoint u n s this attrs (JObj ?ops') = None"
    by (rule Suc.IH)
  then show ?case
    by (subst getEndpoint.simps)
       (simp add: thisEndpointOf_object Let_def ks assms(1,3,5,6) d)
qed

text \<open>
  C2, as amended. Let a resource have a parent and a parent key, both non-empty strings,
  and let \<^verbatim>\<open>getEndpoint\<close> be called with an options object; \<open>thisEndpoint\<close> is
  \<^verbatim>\<open>options.endpoint || this.endpoint\<close>. If the parent is not registered, or the
  parameter of the parent key is \<^verbatim>\<open>false\<close>, or the value of the parent key can be
  resolved neither from the attributes, nor from the injected record, nor from the
  parameters, the call returns \<open>thisEndpoint\<close>, whatever the bound. If the parent is
  registered, with the \<^verbatim>\<open>getEndpoint\<close> that a registration installs, the key is not
  suppressed and can be resolved, and the call of the parent returns \<open>parentEndpoint\<close>, the call returns the path made of \<open>parentEndpoint\<close>, the
  value of the key and \<open>thisEndpoint\<close>, provided that this path is not empty. A value
  taken from the parameters is read once the parent has returned.
\<close>

theorem getEndpoint_composes:
  assumes "lookup (defaults s) this ''parent'' = JStr p" and "p \<noteq> []"
    and "lookup (defaults s) this ''parentKey'' = JStr k" and "k \<noteq> []"
    and "item = injected s this attrs" and "\<not> truthy item \<or> isObject item"
    and "thisEndpoint
         = oror (getprop (JObj ops) ''endpoint'') (lookup (defaults s) this ''endpoint'')"
    and "options = prepareOptions (JObj ops)"
  shows "(definitions s p = None \<or> getprop (getprop options ''params'') k = JBool False
          \<or> resolvedFrom attrs item options k = None
          \<longrightarrow> (\<exists>options'. getEndpoint u n s this attrs (JObj ops)
                            = Some (Inr (thisEndpoint, options'))))
     \<and> (definitions s p = Some parentDef
          \<and> lookup (defaults s) parentDef ''getEndpoint'' = JFun GetEndpointFn gps
          \<and> getprop (getprop options ''params'') k \<noteq> JBool False
          \<and> resolvedFrom attrs item options k = Some src
          \<and> getEndpoint u n s parentDef attrs (forParent src options k)
              = Some (Inr (parentEndpoint, options2))
          \<and> keyValue = (case src of
                           FromAttrs \<Rightarrow> getprop attrs k
                         | FromItem \<Rightarrow> getprop item k
                         | FromParams \<Rightarrow> getprop (getprop options2 ''params'') k)
          \<and> truthy (makePath u [parentEndpoint, keyValue, thisEndpoint])
          \<longrightarrow> (\<exists>options'. getEndpoint u (Suc n) s this attrs (JObj ops)
                   = Some (Inr (makePath u [parentEndpoint, keyValue, thisEndpoint], options'))))"
proof (intro conjI impI)
  have pr: "prepared options" by (simp add: assms(8) prepared_prepareOptions)
  have te: "thisEndpointOf s this (JObj ops) = Inr thisEndpoint"
    by (simp add: thisEndpointOf_object assms(7))
  have kk: "to_str (lookup (defaults s) this ''parentKey'') = k"
    and pp: "to_str (lookup (defaults s) this ''parent'') = p"
    by (simp_all add: assms(1,3))
  note ks = keySource_resolved [OF assms(1-4) pr assms(6) [unfolded assms(5)],
      folded assms(5)]
  {
    assume "definitions s p = None \<or> getprop (getprop options ''params'') k = JBool False
          \<or> resolvedFrom attrs item options k = None"
    then have k0: "keySource s this attrs options = Inr None"
      unfolding ks by auto
    from finish_prepared [OF pr, of k JUndefined thisEndpoint] obtain options' where
      "finish options k JUndefined thisEndpoint = Inr (thisEndpoint, options')"
      by (auto simp: oror_def)
    then show "\<exists>options'. getEndpoint u n s this attrs (JObj ops)
                            = Some (Inr (thisEndpoint, options'))"
      by (subst getEndpoint.simps)
         (simp add: te Let_def kk assms(8) [symmetric] k0)
  }
  {
    assume h: "definitions s p = Some parentDef
          \<and> lookup (defaults s) parentDef ''getEndpoint'' = JFun GetEndpointFn gps
          \<and> getprop (getprop options ''params'') k \<noteq> JBool False
          \<and> resolvedFrom attrs item options k = Some src
          \<and> getEndpoint u n s parentDef attrs (forParent src options k)
              = Some (Inr (parentEndpoint, options2))
          \<and> keyValue = (case src of
                           FromAttrs \<Rightarrow> getprop attrs k
                         | FromItem \<Rightarrow> getprop item k
                         | FromParams \<Rightarrow> getprop (getprop options2 ''params'') k)
          \<and> truthy (makePath u [parentEndpoint, keyValue, thisEndpoint])"
    then have k1: "keySource s this attrs options = Inr (Some (src, item))"
      unfolding ks by auto
    obtain ops' where o': "forParent src options k = JObj ops'"
      using forParent_prepared [of src ops k] unfolding assms(8) prepared_def by blast
    from h have rc: "getEndpoint u n s parentDef attrs (forParent src options k)
        = Some (Inr (parentEndpoint, options2))"
      by simp
    from compose_prepared [OF getEndpoint_prepared [OF rc [unfolded o']], of u src attrs item k
        thisEndpoint parentEndpoint] h
    obtain options' where
      "compose u src attrs item k thisEndpoint parentEndpoint options2
        = Inr (makePath u [parentEndpoint, keyValue, thisEndpoint], options')"
      by (auto simp: oror_def)
    then show "\<exists>options'. getEndpoint u (Suc n) s this attrs (JObj ops)
                   = Some (Inr (makePath u [parentEndpoint, keyValue, thisEndpoint], options'))"
      using h rc
      by (subst getEndpoint.simps)
         (simp add: te Let_def kk pp assms(8) [symmetric] k1)
  }
qed

theorem getEndpoint_composes_witness:
  "lookup (defaults orgUserDS) orgUserResource ''parent'' = JStr ''organization''
   \<and> lookup (defaults orgUserDS) orgUserResource ''parentKey'' = JStr ''organizationId''
   \<and> definitions orgUserDS ''organization'' = Some organizationResource
   \<and> resolvedFrom user7 JUndefined (JObj [(''params'', JObj [])]) ''organizationId''
       = Some FromAttrs
   \<and> getEndpoint mout 0 orgUserDS organizationResource user7 (JObj [(''params'', JObj [])])
       = Some (Inr (JStr ''organization'', JObj [(''params'', JObj [])]))
   \<and> (\<exists>options'. getEndpoint mout 1 orgUserDS orgUserResource user7 (JObj [])
          = Some (Inr (JStr ''organization/5/user'', options')))
   \<and> (\<exists>options'. getEndpoint mout 0 orgUserDS orgUserResource user7
            (JObj [(''params'', JObj [(''organizationId'', JBool False)])])
          = Some (Inr (JStr ''user'', options')))"
proof -
  let ?o = "JObj [(''params'', JObj [])]"
  let ?f = "[(''params'', JObj [(''organizationId'', JBool False)])]"
  have 1: "lookup (defaults orgUserDS) orgUserResource ''parent'' = JStr ''organization''"
    and 2: "''organization'' \<noteq> []"
    and 3: "lookup (defaults orgUserDS) orgUserResource ''parentKey'' = JStr ''organizationId''"
    and 4: "''organizationId'' \<noteq> []"
    and 5: "JUndefined = injected orgUserDS orgUserResource user7"
    and 6: "\<not> truthy JUndefined \<or> isObject JUndefined"
    and 7: "JStr ''user'' = oror (getprop (JObj []) ''endpoint'')
               (lookup (defaults orgUserDS) orgUserResource ''endpoint'')"
    and 8: "?o = prepareOptions (JObj [])"
    and f7: "JStr ''user'' = oror (getprop (JObj ?f) ''endpoint'')
               (lookup (defaults orgUserDS) orgUserResource ''endpoint'')"
    and f8: "JObj ?f = prepareOptions (JObj ?f)"
    by code_simp+
  have a: "definitions orgUserDS ''organization'' = Some organizationResource"
    and b: "getprop (getprop ?o ''params'') ''organizationId'' \<noteq> JBool False"
    and c: "resolvedFrom user7 JUndefined ?o ''organizationId'' = Some FromAttrs"
    and d: "forParent FromAttrs ?o ''organizationId'' = ?o"
    and m: "lookup (defaults orgUserDS) organizationResource ''getEndpoint''
       = JFun GetEndpointFn []"
    and e: "getEndpoint mout 0 orgUserDS organizationResource user7 ?o
       = Some (Inr (JStr ''organization'', ?o))"
    and f: "getprop user7 ''organizationId'' = JNum 5"
    and g: "makePath mout [JStr ''organization'', JNum 5, JStr ''user'']
       = JStr ''organization/5/user''"
    and h: "getprop (getprop (JObj ?f) ''params'') ''organizationId'' = JBool False"
    by code_simp+
  from getEndpoint_composes [OF 1 2 3 4 5 6 7 8, where parentDef = organizationResource
      and src = FromAttrs and u = mout and n = 0 and parentEndpoint = "JStr ''organization''"
      and ?options2.0 = ?o and keyValue = "JNum 5" and gps = "[]"]
  have A: "\<exists>options'. getEndpoint mout 1 orgUserDS orgUserResource user7 (JObj [])
          = Some (Inr (JStr ''organization/5/user'', options'))"
    by (simp add: a b c d e f g m)
  from getEndpoint_composes [OF 1 2 3 4 5 6 f7 f8, where u = mout and n = 0]
  have B: "\<exists>options'. getEndpoint mout 0 orgUserDS orgUserResource user7 (JObj ?f)
          = Some (Inr (JStr ''user'', options'))"
    using h by blast
  from 1 3 a c e A B show ?thesis by blast
qed

text \<open>
  C2 as stated fails for a resource whose chain of parents does not end. The resource
  \<^verbatim>\<open>category\<close> declares itself as its parent through \<^verbatim>\<open>parentId\<close>. Its parent is
  registered and the attributes contain the parent key, so that line 165 calls
  \<^verbatim>\<open>getEndpoint\<close> of the parent, which is the same resource, with the same attributes,
  and so on: whatever the bound on the nesting of the calls, the call does not return.
\<close>

theorem self_parent_never_returns:
  "definitions categoryDS ''category'' = Some categoryResource
   \<and> lookup (defaults categoryDS) categoryResource ''parent'' = JStr ''category''
   \<and> lookup (defaults categoryDS) categoryResource ''parentKey'' = JStr ''parentId''
   \<and> isObject category1 \<and> hasprop category1 ''parentId''
   \<and> (\<forall>n. getEndpoint mout n categoryDS categoryResource category1 (JObj []) = None)"
proof -
  have 1: "lookup (defaults categoryDS) categoryResource ''parent'' = JStr ''category''"
    and 2: "''category'' \<noteq> []"
    and 3: "lookup (defaults categoryDS) categoryResource ''parentKey'' = JStr ''parentId''"
    and 4: "''parentId'' \<noteq> []"
    and 5: "definitions categoryDS ''category'' = Some categoryResource"
    and m: "lookup (defaults categoryDS) categoryResource ''getEndpoint''
       = JFun GetEndpointFn []"
    and 6: "isObject category1"
    and 7: "hasprop category1 ''parentId''"
    and 8: "getprop (prepareOptions (JObj [])) ''params'' = JObj []"
    and 9: "map_of [] ''parentId'' \<noteq> Some (JBool False)"
    by code_simp+
  from self_parent_loops [OF 1 2 3 4 5 m 6 7 8 9] 1 3 5 6 7 show ?thesis by blast
qed

end
